theory Spec2Isabelle
  imports Complex_Main "HOL-Library.Stream"
begin

section \<open>The campus-network login utility (dhbw.py)\<close>

text \<open>
  The program talks to three things it does not control: the portal server (through
  \<^verbatim>\<open>requests\<close>), the terminal (through \<^verbatim>\<open>getpass\<close>) and the clock
  (through \<^verbatim>\<open>time.sleep\<close>, which the operator may interrupt). Each of them is a
  stream of outcomes, read in the order of the calls. Every call is recorded in a trace of
  events, so that statements about the order of requests, prompts and sleeps can be made.
\<close>

subsection \<open>Exceptions, outcomes, events\<close>

text \<open>Exceptions that a library call may raise.\<close>

datatype fault = ConnectionError | KeyboardInterrupt | ValueError | KeyError
  | AttributeError | FileNotFoundError | OtherError

text \<open>What a library call does: it returns a value or raises.\<close>

datatype 'a outcome = Returns 'a | Raises fault

text \<open>
  How a method of the program ends when it does not return: an exception nobody caught
  yet, or \<^verbatim>\<open>sys.exit(code)\<close>.
\<close>

datatype stop = Uncaught fault | SysExit int

record response =
  url :: string
  status_code :: int
  body :: string

datatype level = Debug | Info | Warning | Error | Fatal

text \<open>
  \<open>Log\<close> carries the message template and the arguments of \<open>%\<close>;
  \<open>Get\<close> and \<open>Post\<close> carry the URL requested and what came back,
  \<open>Prompt\<close> the prompt shown and what the operator typed. \<open>Popen\<close>,
  \<open>Wait\<close>, \<open>Poll\<close> and \<open>Terminate\<close> are the calls on the child process.
\<close>

datatype event =
    Log level string "int list"
  | Get string "response outcome"
  | Post string "(string \<times> string) list" "response outcome"
  | Prompt string "string outcome"
  | Sleep real
  | Popen "string list"
  | Wait
  | Poll
  | Terminate

record options =
  username :: string
  opt_password :: "string option"
  server :: string
  timeout :: real
  safe_mode :: "string option"

text \<open>
  The state of a \<open>Login\<close> object and of its surroundings: \<open>password\<close> is
  \<^verbatim>\<open>self.password\<close>; \<open>http\<close>, \<open>tty\<close> and \<open>naps\<close> are what the
  next requests, prompts and sleeps will do; \<open>trace\<close> is what happened so far.
\<close>

record state =
  password :: "string option"
  http :: "response outcome stream"
  tty :: "string outcome stream"
  naps :: "unit outcome stream"
  trace :: "event list"

subsection \<open>Library calls\<close>

definition emit :: "event \<Rightarrow> state \<Rightarrow> state" where
  "emit e s = s\<lparr>trace := trace s @ [e]\<rparr>"

text \<open>\<^verbatim>\<open>str.endswith\<close>\<close>

definition endswith :: "string \<Rightarrow> string \<Rightarrow> bool" where
  "endswith s suf = (length suf \<le> length s \<and> drop (length s - length suf) s = suf)"

text \<open>Truth value of an optional string (\<^verbatim>\<open>if self.options.safe_mode:\<close>).\<close>

fun truthy :: "string option \<Rightarrow> bool" where
  "truthy None = False"
| "truthy (Some v) = (v \<noteq> [])"

definition session_get :: "string \<Rightarrow> state \<Rightarrow> response outcome \<times> state" where
  "session_get u s = (shd (http s), emit (Get u (shd (http s))) (s\<lparr>http := stl (http s)\<rparr>))"

definition session_post ::
  "string \<Rightarrow> (string \<times> string) list \<Rightarrow> state \<Rightarrow> response outcome \<times> state" where
  "session_post u d s =
     (shd (http s), emit (Post u d (shd (http s))) (s\<lparr>http := stl (http s)\<rparr>))"

definition getpass :: "string \<Rightarrow> state \<Rightarrow> string outcome \<times> state" where
  "getpass p s = (shd (tty s), emit (Prompt p (shd (tty s))) (s\<lparr>tty := stl (tty s)\<rparr>))"

text \<open>
  \<^verbatim>\<open>time.sleep\<close> refuses a negative length; otherwise it may be interrupted.
  The length is a real number: a float that is no number is not represented.
\<close>

definition sleep :: "real \<Rightarrow> state \<Rightarrow> unit outcome \<times> state" where
  "sleep d s =
     (if d < 0 then (Raises ValueError, s)
      else (shd (naps s), emit (Sleep d) (s\<lparr>naps := stl (naps s)\<rparr>)))"

subsection \<open>The class Login\<close>

definition build_url :: "options \<Rightarrow> string \<Rightarrow> string" where
  "build_url opts target = ''https://'' @ server opts @ ''/'' @ target"

text \<open>\<^verbatim>\<open>Login.init\<close>: the options are at hand, and are not looked at.\<close>

definition Login_init :: "options \<Rightarrow> state \<Rightarrow> state" where
  "Login_init opts s = s\<lparr>password := None\<rparr>"

definition get_passwd :: "options \<Rightarrow> state \<Rightarrow> (stop + string) \<times> state" where
  "get_passwd opts s =
     (if truthy (safe_mode opts) then
        (case getpass ''Password: '' s of
           (Returns p, s1) \<Rightarrow> (Inr p, s1)
         | (Raises e, s1) \<Rightarrow> (Inl (Uncaught e), s1))
      else
        (case password s of
           None \<Rightarrow>
             (case getpass ''Password: '' s of
                (Returns p, s1) \<Rightarrow> (Inr p, s1\<lparr>password := Some p\<rparr>)
              | (Raises e, s1) \<Rightarrow> (Inl (Uncaught e), s1))
         | Some p \<Rightarrow> (Inr p, s)))"

text \<open>
  The body of the \<^verbatim>\<open>try\<close> block of \<^verbatim>\<open>_login\<close>: one request. The password
  is fetched while the arguments of \<^verbatim>\<open>post\<close> are evaluated, so inside the block
  and once for each attempt.
\<close>

definition login_try :: "options \<Rightarrow> state \<Rightarrow> (stop + response) \<times> state" where
  "login_try opts s =
     (case get_passwd opts s of
        (Inl st, s1) \<Rightarrow> (Inl st, s1)
      | (Inr pw, s1) \<Rightarrow>
          (case session_post (build_url opts ''login-exec.php'')
                  [(''username'', username opts), (''password'', pw), (''submit'', ''Log on'')] s1 of
             (Returns r, s2) \<Rightarrow> (Inr r, s2)
           | (Raises e, s2) \<Rightarrow> (Inl (Uncaught e), s2)))"

text \<open>
  The \<^verbatim>\<open>while retries > 0\<close> loop of \<^verbatim>\<open>_login\<close>. It returns the final
  values of \<^verbatim>\<open>retries\<close> and \<^verbatim>\<open>response\<close>. A connection error raised in
  the block is handled by a warning, a sleep of 30 seconds and one unit less of the
  budget; anything else that is raised leaves the loop.
\<close>

fun login_loop ::
  "options \<Rightarrow> nat \<Rightarrow> state \<Rightarrow> (stop + nat \<times> response option) \<times> state" where
  "login_loop opts 0 s = (Inr (0, None), s)"
| "login_loop opts (Suc n) s =
     (case login_try opts s of
        (Inr r, s2) \<Rightarrow> (Inr (Suc n, Some r), s2)
      | (Inl st, s2) \<Rightarrow>
          if st = Uncaught ConnectionError then
            (case sleep 30
                    (emit (Log Warning ''No connection possible... %d retries left''
                             [int (Suc n)]) s2) of
               (Returns u, s3) \<Rightarrow> login_loop opts n s3
             | (Raises e, s3) \<Rightarrow> (Inl (Uncaught e), s3))
          else (Inl st, s2))"

definition login :: "options \<Rightarrow> state \<Rightarrow> (stop + bool) \<times> state" where
  "login opts s =
     (case login_loop opts 5 (emit (Log Info ''Logging in...'' []) s) of
        (Inl st, s1) \<Rightarrow> (Inl st, s1)
      | (Inr (retries, resp), s1) \<Rightarrow>
          if retries > 0 then
            (case resp of
               None \<Rightarrow> (Inl (Uncaught AttributeError), s1)
             | Some r \<Rightarrow> (Inr (\<not> endswith (url r) ''index.php''), s1))
          else (Inr False, s1))"

definition logout :: "options \<Rightarrow> state \<Rightarrow> (stop + bool) \<times> state" where
  "logout opts s =
     (case session_get (build_url opts ''logout.php'') s of
        (Returns r, s1) \<Rightarrow> (Inr (status_code r = 200), s1)
      | (Raises e, s1) \<Rightarrow> (Inl (Uncaught e), s1))"

definition init_session :: "options \<Rightarrow> state \<Rightarrow> (stop + unit) \<times> state" where
  "init_session opts s =
     (case session_get (build_url opts ''index.php'')
             (emit (Log Info ''Initializing session...'' []) s) of
        (Raises e, s1) \<Rightarrow>
          if e = ConnectionError then
            (Inl (SysExit 1), emit (Log Fatal ''No connection to zerberus possible'' []) s1)
          else (Inl (Uncaught e), s1)
      | (Returns r, s1) \<Rightarrow>
          if status_code r \<noteq> 200 then
            (Inl (SysExit 1),
             emit (Log Fatal ''No connection to the login server possible'' []) s1)
          else (Inr (), s1))"

definition keepalive :: "options \<Rightarrow> state \<Rightarrow> (stop + bool) \<times> state" where
  "keepalive opts s =
     (case session_get (build_url opts ''online.php'') s of
        (Returns r, s1) \<Rightarrow> (Inr (\<not> endswith (url r) ''index.php''), s1)
      | (Raises e, s1) \<Rightarrow>
          if e = ConnectionError then (Inr False, s1) else (Inl (Uncaught e), s1))"

text \<open>
  The \<^verbatim>\<open>while True\<close> loop of \<^verbatim>\<open>execute\<close>, with fuel: one unit for each
  turn of the loop. \<open>None\<close> says that the fuel ran out with the loop still running.
\<close>

fun poll_loop :: "options \<Rightarrow> nat \<Rightarrow> state \<Rightarrow> stop option \<times> state" where
  "poll_loop opts 0 s = (None, s)"
| "poll_loop opts (Suc n) s =
     (case keepalive opts (emit (Log Info ''Sending keep-alive'' []) s) of
        (Inl st, s1) \<Rightarrow> (Some st, s1)
      | (Inr alive, s1) \<Rightarrow>
          if \<not> alive then
            (case login opts s1 of
               (Inl st, s2) \<Rightarrow> (Some st, s2)
             | (Inr ok, s2) \<Rightarrow>
                 if \<not> ok then
                   (Some (SysExit 0), emit (Log Error ''Couldn't log back in'' []) s2)
                 else poll_loop opts n s2)
          else
            (case sleep (timeout opts) s1 of
               (Returns u, s2) \<Rightarrow> poll_loop opts n s2
             | (Raises e, s2) \<Rightarrow> (Some (Uncaught e), s2)))"

definition execute :: "options \<Rightarrow> nat \<Rightarrow> state \<Rightarrow> stop option \<times> state" where
  "execute opts fuel s =
     (case init_session opts s of
        (Inl st, s1) \<Rightarrow> (Some st, s1)
      | (Inr u, s1) \<Rightarrow>
          (case login opts s1 of
             (Inl st, s2) \<Rightarrow> (Some st, s2)
           | (Inr ok, s2) \<Rightarrow>
               if \<not> ok then
                 (Some (SysExit (- 1)), emit (Log Error ''Invalid username/password!'' []) s2)
               else poll_loop opts fuel (emit (Log Info ''Successfully logged in'' []) s2)))"

definition shutdown :: "options \<Rightarrow> state \<Rightarrow> (stop + unit) \<times> state" where
  "shutdown opts s =
     (case logout opts (emit (Log Info ''Logging out...'' []) s) of
        (Inl st, s1) \<Rightarrow> (Inl st, s1)
      | (Inr ok, s1) \<Rightarrow>
          if \<not> ok then (Inr (), emit (Log Error ''Logout failed'' []) s1)
          else (Inr (), emit (Log Info ''Goodbye!'' []) s1))"

subsection \<open>The process\<close>

text \<open>
  How the process ends: \<open>Exited c\<close> after \<^verbatim>\<open>sys.exit(c)\<close>, \<open>Crashed e\<close> on an
  exception that reaches the top, \<open>Finished\<close> when \<^verbatim>\<open>main\<close> returns.
  \<open>None\<close> stands for a process that is still polling when the fuel is used up.
\<close>

datatype ending = Exited int | Crashed fault | Finished

text \<open>
  \<^verbatim>\<open>main\<close> for the \<^verbatim>\<open>login\<close> verb: build the action, run it, and on a
  keyboard interrupt shut it down. Only \<^verbatim>\<open>KeyboardInterrupt\<close> is caught.
\<close>

definition main :: "options \<Rightarrow> nat \<Rightarrow> state \<Rightarrow> ending option \<times> state" where
  "main opts fuel s =
     (case execute opts fuel (Login_init opts s) of
        (None, s1) \<Rightarrow> (None, s1)
      | (Some (SysExit c), s1) \<Rightarrow> (Some (Exited c), s1)
      | (Some (Uncaught e), s1) \<Rightarrow>
          if e = KeyboardInterrupt then
            (case shutdown opts
                    (emit (Log Info ''Received keyboard interrupt. Stopping running actions...'' [])
                       s1) of
               (Inl (SysExit c), s2) \<Rightarrow> (Some (Exited c), s2)
             | (Inl (Uncaught e'), s2) \<Rightarrow> (Some (Crashed e'), s2)
             | (Inr u, s2) \<Rightarrow> (Some Finished, s2))
          else (Some (Crashed e), s1))"

subsection \<open>The class RemoteDesktop\<close>














subsection \<open>Sample inputs\<close>

text \<open>The defaults of the argument parser, for a user called \<open>student\<close>.\<close>

definition default_options :: options where
  "default_options =
     \<lparr>username = ''student'', opt_password = None, server = ''zerberus.ba-horb.de'',
      timeout = 60, safe_mode = None\<rparr>"

text \<open>
  A fresh process: the server answers as \<open>h\<close> says, the operator types what \<open>t\<close>
  says, and nobody interrupts a sleep.
\<close>

definition boot :: "response outcome stream \<Rightarrow> string outcome stream \<Rightarrow> state" where
  "boot h t = \<lparr>password = None, http = h, tty = t, naps = sconst (Returns ()), trace = []\<rparr>"

definition page :: "string \<Rightarrow> int \<Rightarrow> response" where
  "page u c = \<lparr>url = u, status_code = c, body = []\<rparr>"

subsection \<open>Reading a trace\<close>

text \<open>
  A keep-alive poll that failed: the request to \<^verbatim>\<open>online.php\<close> raised a
  connection error, or came back with a URL that ends with \<^verbatim>\<open>index.php\<close>.
\<close>

definition is_failed_poll :: "options \<Rightarrow> event \<Rightarrow> bool" where
  "is_failed_poll opts e =
     (case e of
        Get u out \<Rightarrow> u = build_url opts ''online.php'' \<and>
          (case out of Returns r \<Rightarrow> endswith (url r) ''index.php'' | Raises x \<Rightarrow> x = ConnectionError)
      | _ \<Rightarrow> False)"

text \<open>The first thing \<^verbatim>\<open>_login\<close> does is to log this line.\<close>

definition is_login_start :: "event \<Rightarrow> bool" where
  "is_login_start e = (e = Log Info ''Logging in...'' [])"

definition is_warmup :: "options \<Rightarrow> event \<Rightarrow> bool" where
  "is_warmup opts e = (case e of Get u out \<Rightarrow> u = build_url opts ''index.php'' | _ \<Rightarrow> False)"

text \<open>
  The rule for two neighbours in a trace: a failed poll is followed by the start of a
  login, and a login starts only after a failed poll or after the warm-up request.
\<close>

definition relogin_rule :: "options \<Rightarrow> event \<Rightarrow> event \<Rightarrow> bool" where
  "relogin_rule opts e e' =
     (if is_failed_poll opts e then is_login_start e'
      else is_login_start e' \<longrightarrow> is_warmup opts e)"

text \<open>The rule holds all along the trace, and no failed poll is left unanswered.\<close>

definition settled :: "options \<Rightarrow> event list \<Rightarrow> bool" where
  "settled opts tr = (successively (relogin_rule opts) tr \<and> (tr = [] \<or> \<not> is_failed_poll opts (last tr)))"

text \<open>An event that is neither a failed poll nor the start of a login.\<close>

definition neutral :: "options \<Rightarrow> event \<Rightarrow> bool" where
  "neutral opts e = (\<not> is_failed_poll opts e \<and> \<not> is_login_start e)"


text \<open>
  A session that is lost at the second poll; the server then refuses one connection and
  sends the second login attempt back to the landing page.
\<close>

definition lost_session :: state where
  "lost_session =
     boot (Returns (page ''https://zerberus.ba-horb.de/index.php'' 200) ##
           Returns (page ''https://zerberus.ba-horb.de/welcome.php'' 200) ##
           Returns (page ''https://zerberus.ba-horb.de/online.php'' 200) ##
           Returns (page ''https://zerberus.ba-horb.de/index.php'' 200) ##
           Raises ConnectionError ##
           sconst (Returns (page ''https://zerberus.ba-horb.de/index.php'' 200)))
          (sconst (Returns ''secret''))"

text \<open>Login attempts in a trace: the requests to \<^verbatim>\<open>login-exec.php\<close>.\<close>

fun is_post :: "event \<Rightarrow> bool" where
  "is_post (Post u d out) = True"
| "is_post e = False"

definition posts :: "state \<Rightarrow> nat" where
  "posts s = length (filter is_post (trace s))"


text \<open>The warm-up request is answered; after that, no connection can be made.\<close>

definition no_connection :: state where
  "no_connection =
     boot (Returns (page ''https://zerberus.ba-horb.de/index.php'' 200) ##
           sconst (Raises ConnectionError))
          (sconst (Returns ''secret''))"

text \<open>
  Five refused connections, then a server that would accept the login; and four refused
  connections before each of two logins.
\<close>

definition five_errors :: state where
  "five_errors =
     boot (replicate 5 (Raises ConnectionError) @-
           sconst (Returns (page ''https://zerberus.ba-horb.de/welcome.php'' 200)))
          (sconst (Returns ''secret''))"

definition four_errors_twice :: state where
  "four_errors_twice =
     boot (replicate 4 (Raises ConnectionError) @-
           Returns (page ''https://zerberus.ba-horb.de/welcome.php'' 200) ##
           replicate 4 (Raises ConnectionError) @-
           sconst (Returns (page ''https://zerberus.ba-horb.de/welcome.php'' 200)))
          (sconst (Returns ''secret''))"

text \<open>
  The path of a URL as the specification speaks of it: what stands after the host, up to
  the query or the fragment. The program itself never takes a URL apart.
\<close>

fun after_host :: "string \<Rightarrow> string" where
  "after_host (a # b # r) =
     (if a = CHR ''/'' \<and> b = CHR ''/'' then dropWhile (\<lambda>c. c \<noteq> CHR ''/'') r
      else after_host (b # r))"
| "after_host r = []"

definition url_path :: "string \<Rightarrow> string" where
  "url_path u = takeWhile (\<lambda>c. c \<noteq> CHR ''?'' \<and> c \<noteq> CHR ''#'') (after_host u)"

definition landing_page_path :: string where
  "landing_page_path = ''/index.php''"

text \<open>
  Three servers: one that answers with the landing page and a query string, one that
  answers with another page whose name ends alike, and one that cannot be reached.
\<close>

definition query_page :: state where
  "query_page =
     boot (Returns (page ''https://zerberus.ba-horb.de/index.php?lang=de'' 200) ##
           sconst (Raises ConnectionError))
          (sconst (Returns ''secret''))"

definition other_page :: state where
  "other_page =
     boot (Returns (page ''https://zerberus.ba-horb.de/portal/noindex.php'' 200) ##
           sconst (Raises ConnectionError))
          (sconst (Returns ''secret''))"

definition offline :: state where
  "offline = boot (sconst (Raises ConnectionError)) (sconst (Returns ''secret''))"

text \<open>
  Prompts and passwords in a trace: what was typed at a prompt, and the password that a
  login request carries.
\<close>

fun is_prompt :: "event \<Rightarrow> bool" where
  "is_prompt (Prompt m out) = True"
| "is_prompt e = False"

fun typed :: "event \<Rightarrow> string option" where
  "typed (Prompt m (Returns p)) = Some p"
| "typed e = None"

fun sent :: "event \<Rightarrow> string option" where
  "sent (Post u d out) = map_of d ''password''"
| "sent e = None"

text \<open>
  Each password typed is sent by the very next event, and each request sends the password
  typed just before it; the trace neither starts with a request nor ends on a password
  that was typed and not sent.
\<close>

definition paired :: "event list \<Rightarrow> bool" where
  "paired tr =
     (successively (\<lambda>e e'. typed e = sent e') tr \<and>
      (tr = [] \<or> (sent (hd tr) = None \<and> typed (last tr) = None)))"

text \<open>From \<open>s\<close> to \<open>s'\<close> the trace grew by such a piece, and the cache was not touched.\<close>

definition keeps :: "state \<Rightarrow> state \<Rightarrow> bool" where
  "keeps s s' = (\<exists>evs. trace s' = trace s @ evs \<and> paired evs \<and> password s' = password s)"

text \<open>
  \<^verbatim>\<open>getpass\<close> has no connection error to raise; one raised inside the
  \<^verbatim>\<open>try\<close> block would be taken for a refused connection.
\<close>

definition no_connection_error :: "string outcome stream \<Rightarrow> bool" where
  "no_connection_error t = (\<forall>x\<in>sset t. x \<noteq> Raises ConnectionError)"

text \<open>
  Without safe mode: either nothing was asked or sent yet and the cache is empty, or the
  one prompt so far was answered with the password that is cached and that every request
  has sent.
\<close>

definition cached :: "state \<Rightarrow> bool" where
  "cached s =
     (no_connection_error (tty s) \<and>
      (case password s of
         None \<Rightarrow> (\<forall>e\<in>set (trace s). \<not> is_prompt e \<and> \<not> is_post e)
       | Some p \<Rightarrow>
           filter is_prompt (trace s) = [Prompt ''Password: '' (Returns p)] \<and>
           (\<forall>e\<in>set (trace s). is_post e \<longrightarrow> sent e = Some p)))"

text \<open>At most one prompt, and every request sends what was typed there.\<close>

definition asked_once :: "event list \<Rightarrow> bool" where
  "asked_once tr =
     (length (filter is_prompt tr) \<le> 1 \<and>
      (\<forall>e\<in>set tr. is_post e \<longrightarrow>
         (\<exists>p. sent e = Some p \<and> Prompt ''Password: '' (Returns p) \<in> set tr)))"

text \<open>An event that is neither a prompt nor a login request.\<close>

definition quiet :: "event \<Rightarrow> bool" where
  "quiet e = (\<not> is_prompt e \<and> \<not> is_post e)"

text \<open>What a call may leave behind: a cached state when it returns, a trace with at most
  one prompt when it does not.\<close>

definition fine :: "('a + 'b) \<times> state \<Rightarrow> bool" where
  "fine rs = (case fst rs of Inl st \<Rightarrow> asked_once (trace (snd rs)) | Inr x \<Rightarrow> cached (snd rs))"

text \<open>The same for the loops that end by a stop or run out of fuel.\<close>

definition fine_run :: "stop option \<times> state \<Rightarrow> bool" where
  "fine_run rs = (case fst rs of Some st \<Rightarrow> asked_once (trace (snd rs)) | None \<Rightarrow> cached (snd rs))"

text \<open>
  Safe mode switched on; and a server that refuses the first login request, with an
  operator who types a different password each time.
\<close>

definition safe_options :: options where
  "safe_options = default_options\<lparr>safe_mode := Some ''yes''\<rparr>"

definition one_error :: state where
  "one_error =
     boot (Returns (page ''https://zerberus.ba-horb.de/index.php'' 200) ##
           Raises ConnectionError ##
           Returns (page ''https://zerberus.ba-horb.de/welcome.php'' 200) ##
           Returns (page ''https://zerberus.ba-horb.de/index.php'' 200) ##
           sconst (Returns (page ''https://zerberus.ba-horb.de/welcome.php'' 200)))
          (Returns ''first'' ## Returns ''second'' ## sconst (Returns ''third''))"

text \<open>
  The operator interrupts the first sleep of the polling loop, at a moment when the
  server can no longer be reached.
\<close>

definition unplugged :: state where
  "unplugged =
     (boot (Returns (page ''https://zerberus.ba-horb.de/index.php'' 200) ##
            Returns (page ''https://zerberus.ba-horb.de/welcome.php'' 200) ##
            Returns (page ''https://zerberus.ba-horb.de/online.php'' 200) ##
            sconst (Raises ConnectionError))
           (sconst (Returns ''secret'')))
     \<lparr>naps := sconst (Raises KeyboardInterrupt)\<rparr>"


section \<open>Properties\<close>

text \<open>Unfolding these evaluates a run on a given input.\<close>

lemmas run_defs = main_def execute_def init_session_def login_def login_try_def keepalive_def
  session_get_def
  session_post_def get_passwd_def getpass_def sleep_def emit_def Login_init_def shutdown_def
  logout_def boot_def page_def default_options_def build_url_def endswith_def

subsection \<open>Start-up\<close>

text \<open>
  C5. When the warm-up request of \<^verbatim>\<open>_init_session\<close> raises a connection error, or
  comes back with a status other than 200, the process ends by \<^verbatim>\<open>sys.exit(1)\<close>
  whatever the fuel. The trace shows all that happened: one log line, the one request
  (no second one, so no retry, no login and no keep-alive poll) and the fatal log line.
\<close>

theorem init_failure_exits_1:
  assumes "shd (http s) = Raises ConnectionError \<or>
           (\<exists>r. shd (http s) = Returns r \<and> status_code r \<noteq> 200)"
  shows "main opts fuel s =
           (Some (Exited 1),
            s\<lparr>password := None, http := stl (http s),
              trace := trace s @
                [Log Info ''Initializing session...'' [],
                 Get (build_url opts ''index.php'') (shd (http s)),
                 Log Fatal (if shd (http s) = Raises ConnectionError
                            then ''No connection to zerberus possible''
                            else ''No connection to the login server possible'') []]\<rparr>)"
  using assms
  by (auto simp: main_def execute_def init_session_def session_get_def emit_def Login_init_def)

theorem init_failure_exits_1_witness:
  "fst (main default_options 3
          (boot (Returns (page ''https://zerberus.ba-horb.de/index.php'' 503)
                   ## sconst (Raises ConnectionError))
                (sconst (Returns ''secret'')))) = Some (Exited 1) \<and>
   trace (snd (main default_options 3
          (boot (Returns (page ''https://zerberus.ba-horb.de/index.php'' 503)
                   ## sconst (Raises ConnectionError))
                (sconst (Returns ''secret''))))) =
     [Log Info ''Initializing session...'' [],
      Get ''https://zerberus.ba-horb.de/index.php''
        (Returns (page ''https://zerberus.ba-horb.de/index.php'' 503)),
      Log Fatal ''No connection to the login server possible'' []]"
  using init_failure_exits_1
    [of "boot (Returns (page ''https://zerberus.ba-horb.de/index.php'' 503)
                   ## sconst (Raises ConnectionError))
              (sconst (Returns ''secret''))" default_options 3]
  by (simp add: boot_def page_def default_options_def build_url_def)

subsection \<open>The trace of a run\<close>

lemma emit_simps [simp]:
  "trace (emit e s) = trace s @ [e]" "http (emit e s) = http s" "tty (emit e s) = tty s"
  "naps (emit e s) = naps s" "password (emit e s) = password s"
  by (simp_all add: emit_def)

lemma relogin_rule_neutral:
  "\<not> is_failed_poll opts e \<Longrightarrow> \<not> is_login_start e' \<Longrightarrow> relogin_rule opts e e'"
  by (simp add: relogin_rule_def)

lemma successively_neutral:
  "\<forall>e\<in>set evs. neutral opts e \<Longrightarrow> successively (relogin_rule opts) evs"
proof (induction evs)
  case Nil
  show ?case by simp
next
  case (Cons a evs)
  then have "evs \<noteq> [] \<Longrightarrow> relogin_rule opts a (hd evs)"
    by (intro relogin_rule_neutral) (auto simp: neutral_def)
  with Cons show ?case by (auto simp: successively_Cons)
qed

lemma settled_neutral:
  assumes "settled opts tr" "\<forall>e\<in>set evs. neutral opts e"
  shows "settled opts (tr @ evs)"
proof (cases "evs = []")
  case True with assms show ?thesis by simp
next
  case False
  then have n: "neutral opts (hd evs)" "neutral opts (last evs)" using assms(2) by auto
  have "tr \<noteq> [] \<Longrightarrow> relogin_rule opts (last tr) (hd evs)"
    using assms(1) n(1) by (intro relogin_rule_neutral) (auto simp: settled_def neutral_def)
  moreover have "successively (relogin_rule opts) evs"
    using assms(2) by (rule successively_neutral)
  moreover have "successively (relogin_rule opts) tr" using assms(1) by (simp add: settled_def)
  ultimately have "successively (relogin_rule opts) (tr @ evs)"
    unfolding successively_append_iff by blast
  with n(2) False show ?thesis by (simp add: settled_def neutral_def)
qed

lemma settled_relogin:
  assumes "settled opts tr" "is_failed_poll opts p \<or> is_warmup opts p" "\<not> is_login_start p"
  shows "settled opts (tr @ [p, Log Info ''Logging in...'' []])"
proof -
  have a: "successively (relogin_rule opts) tr" "tr = [] \<or> \<not> is_failed_poll opts (last tr)"
    using assms(1) by (simp_all add: settled_def)
  have b: "relogin_rule opts p (Log Info ''Logging in...'' [])"
    using assms(2) by (auto simp: relogin_rule_def is_login_start_def)
  have c: "\<not> is_failed_poll opts (Log Info ''Logging in...'' [])"
    by (simp add: is_failed_poll_def)
  have d: "tr \<noteq> [] \<Longrightarrow> relogin_rule opts (last tr) p"
    using a(2) assms(3) by (intro relogin_rule_neutral) auto
  have "successively (relogin_rule opts) (tr @ [p, Log Info ''Logging in...'' []])"
    unfolding successively_append_iff using a(1) b d by auto
  with c show ?thesis by (simp add: settled_def)
qed

lemma login_try_trace:
  "\<exists>evs. trace (snd (login_try opts s)) = trace s @ evs \<and> (\<forall>e\<in>set evs. neutral opts e)"
  by (auto simp: login_try_def get_passwd_def getpass_def session_post_def neutral_def
      is_failed_poll_def is_login_start_def split: outcome.splits option.splits)

lemma login_loop_trace:
  "\<exists>evs. trace (snd (login_loop opts n s)) = trace s @ evs \<and> (\<forall>e\<in>set evs. neutral opts e)"
proof (induction n arbitrary: s)
  case 0
  show ?case by simp
next
  case (Suc n)
  define s2 where "s2 = snd (login_try opts s)"
  define s3 where "s3 = snd (sleep 30
      (emit (Log Warning ''No connection possible... %d retries left'' [int (Suc n)]) s2))"
  from login_try_trace[of opts s] obtain e2 where
    e2: "trace s2 = trace s @ e2" "\<forall>e\<in>set e2. neutral opts e" by (auto simp: s2_def)
  have t3: "\<exists>e3. trace s3 = trace s2 @ e3 \<and> (\<forall>e\<in>set e3. neutral opts e)"
    by (simp add: s3_def sleep_def neutral_def is_failed_poll_def is_login_start_def)
  from Suc[of s3] obtain e4 where
    e4: "trace (snd (login_loop opts n s3)) = trace s3 @ e4" "\<forall>e\<in>set e4. neutral opts e"
    by blast
  from t3 e2 e4 have
    a2: "\<exists>evs. trace s2 = trace s @ evs \<and> (\<forall>e\<in>set evs. neutral opts e)" and
    a3: "\<exists>evs. trace s3 = trace s @ evs \<and> (\<forall>e\<in>set evs. neutral opts e)" and
    a4: "\<exists>evs. trace (snd (login_loop opts n s3)) = trace s @ evs \<and> (\<forall>e\<in>set evs. neutral opts e)"
    by (auto simp: ball_Un)
  have "snd (login_loop opts (Suc n) s) = s2 \<or> snd (login_loop opts (Suc n) s) = s3
      \<or> snd (login_loop opts (Suc n) s) = snd (login_loop opts n s3)"
    by (auto simp: s2_def s3_def split: prod.splits sum.splits outcome.splits)
  with a2 a3 a4 show ?case by metis
qed

lemma login_trace:
  "\<exists>evs. trace (snd (login opts s)) = trace s @ Log Info ''Logging in...'' [] # evs \<and>
         (\<forall>e\<in>set evs. neutral opts e)"
proof -
  from login_loop_trace[of opts 5 "emit (Log Info ''Logging in...'' []) s"]
  obtain evs where "trace (snd (login_loop opts 5 (emit (Log Info ''Logging in...'' []) s)))
      = trace s @ Log Info ''Logging in...'' [] # evs" "\<forall>e\<in>set evs. neutral opts e"
    by auto
  then show ?thesis
    by (auto simp: login_def split: prod.splits sum.splits option.splits)
qed

lemma poll_urls [simp]:
  "build_url opts ''index.php'' \<noteq> build_url opts ''online.php''"
  "build_url opts ''logout.php'' \<noteq> build_url opts ''online.php''"
  by (simp_all add: build_url_def)

lemma neutral_simps [simp]:
  "neutral opts (Log Info ''Sending keep-alive'' [])"
  "neutral opts (Log Info ''Initializing session...'' [])"
  "neutral opts (Log Info ''Successfully logged in'' [])"
  "neutral opts (Log Info ''Logging out...'' [])"
  "neutral opts (Log Info ''Goodbye!'' [])"
  "neutral opts (Log Info ''Received keyboard interrupt. Stopping running actions...'' [])"
  "neutral opts (Log Error m a)"
  "neutral opts (Log Fatal m a)"
  "neutral opts (Sleep d)"
  "neutral opts (Get (build_url opts ''index.php'') out)"
  "neutral opts (Get (build_url opts ''logout.php'') out)"
  by (simp_all add: neutral_def is_failed_poll_def is_login_start_def)

lemma settled_snoc: "settled opts tr \<Longrightarrow> neutral opts e \<Longrightarrow> settled opts (tr @ [e])"
  using settled_neutral[of opts tr "[e]"] by simp

lemma settled_login:
  assumes "settled opts (trace s)" "trace t = trace s @ [p]"
    "is_failed_poll opts p \<or> is_warmup opts p" "\<not> is_login_start p"
  shows "settled opts (trace (snd (login opts t)))"
proof -
  from login_trace[of opts t] obtain evs where
    e: "trace (snd (login opts t)) = trace t @ Log Info ''Logging in...'' [] # evs"
       "\<forall>e\<in>set evs. neutral opts e" by blast
  have "settled opts (trace s @ [p, Log Info ''Logging in...'' []])"
    using assms(1,3,4) by (rule settled_relogin)
  from settled_neutral[OF this e(2)] show ?thesis using e(1) assms(2) by simp
qed

lemma poll_loop_settled:
  "settled opts (trace s) \<Longrightarrow> settled opts (trace (snd (poll_loop opts n s)))"
proof (induction n arbitrary: s)
  case 0
  then show ?case by simp
next
  case (Suc n)
  define out where "out = shd (http s)"
  define p where "p = Get (build_url opts ''online.php'') out"
  define s1 where "s1 = snd (keepalive opts (emit (Log Info ''Sending keep-alive'' []) s))"
  have k: "keepalive opts (emit (Log Info ''Sending keep-alive'' []) s) =
      (case out of Returns r \<Rightarrow> Inr (\<not> endswith (url r) ''index.php'')
       | Raises e \<Rightarrow> if e = ConnectionError then Inr False else Inl (Uncaught e), s1)"
    by (simp add: s1_def out_def keepalive_def session_get_def split: outcome.splits)
  have t1: "trace s1 = (trace s @ [Log Info ''Sending keep-alive'' []]) @ [p]"
    by (simp add: s1_def p_def out_def keepalive_def session_get_def split: outcome.splits)
  have s0: "settled opts (trace s @ [Log Info ''Sending keep-alive'' []])"
    using Suc.prems by (simp add: settled_snoc)
  show ?case
  proof (cases "is_failed_poll opts p")
    case True
    then have alive: "fst (keepalive opts (emit (Log Info ''Sending keep-alive'' []) s)) = Inr False"
      by (auto simp: k p_def is_failed_poll_def split: outcome.splits)
    have "\<not> is_login_start p" by (simp add: p_def is_login_start_def)
    with s0 t1 True have l: "settled opts (trace (snd (login opts s1)))"
      by (intro settled_login[where p = p and t = s1 and s = "emit (Log Info ''Sending keep-alive'' []) s"]) auto
    obtain lr s2 where lg: "login opts s1 = (lr, s2)" by (cases "login opts s1")
    with l have s2: "settled opts (trace s2)" by simp
    have "snd (poll_loop opts (Suc n) s) = s2 \<or>
          snd (poll_loop opts (Suc n) s) = emit (Log Error ''Couldn't log back in'' []) s2 \<or>
          snd (poll_loop opts (Suc n) s) = snd (poll_loop opts n s2)"
      using alive lg k by (auto split: sum.splits prod.splits)
    with s2 Suc.IH[OF s2] show ?thesis by (auto simp: settled_snoc)
  next
    case False
    then have "neutral opts p" by (simp add: neutral_def p_def is_login_start_def)
    with s0 have "settled opts ((trace s @ [Log Info ''Sending keep-alive'' []]) @ [p])"
      by (rule settled_snoc)
    with t1 have s1: "settled opts (trace s1)" by simp
    have notF: "fst (keepalive opts (emit (Log Info ''Sending keep-alive'' []) s)) \<noteq> Inr False"
      using False by (auto simp: k p_def is_failed_poll_def split: outcome.splits)
    define s2 where "s2 = snd (sleep (timeout opts) s1)"
    have s2: "settled opts (trace s2)"
      using s1 by (simp add: s2_def sleep_def settled_snoc)
    have "snd (poll_loop opts (Suc n) s) = s1 \<or> snd (poll_loop opts (Suc n) s) = s2 \<or>
          snd (poll_loop opts (Suc n) s) = snd (poll_loop opts n s2)"
      using notF k by (auto simp: s2_def split: sum.splits prod.splits outcome.splits)
    with s1 s2 Suc.IH[OF s2] show ?thesis by auto
  qed
qed


lemma execute_settled:
  assumes "settled opts (trace s)"
  shows "settled opts (trace (snd (execute opts n s)))"
proof -
  define p where "p = Get (build_url opts ''index.php'') (shd (http s))"
  define s0 where "s0 = emit (Log Info ''Initializing session...'' []) s"
  obtain ir s1 where i: "init_session opts s = (ir, s1)" by (cases "init_session opts s")
  have s0: "settled opts (trace s0)" using assms by (simp add: s0_def settled_snoc)
  show ?thesis
  proof (cases ir)
    case (Inl st)
    have "trace s1 = trace s0 @ [p] \<or> (\<exists>m. trace s1 = (trace s0 @ [p]) @ [Log Fatal m []])"
      using i Inl
      by (auto simp: init_session_def session_get_def p_def s0_def
          split: outcome.splits if_splits)
    moreover have "settled opts (trace s0 @ [p])"
      using s0 by (rule settled_snoc) (simp add: p_def)
    ultimately have "settled opts (trace s1)" by (auto simp: settled_snoc simp del: append_assoc)
    with i Inl show ?thesis by (simp add: execute_def)
  next
    case (Inr u)
    have t1: "trace s1 = trace s0 @ [p]"
      using i Inr
      by (auto simp: init_session_def session_get_def p_def s0_def
          split: outcome.splits if_splits)
    have "is_warmup opts p" "\<not> is_login_start p"
      by (simp_all add: p_def is_warmup_def is_login_start_def)
    with s0 t1 have l: "settled opts (trace (snd (login opts s1)))"
      by (intro settled_login[where p = p and t = s1 and s = s0]) auto
    obtain lr s2 where lg: "login opts s1 = (lr, s2)" by (cases "login opts s1")
    with l have s2: "settled opts (trace s2)" by simp
    then have s3: "settled opts (trace (emit (Log Info ''Successfully logged in'' []) s2))"
      by (simp add: settled_snoc)
    have "snd (execute opts n s) = s2 \<or>
          snd (execute opts n s) = emit (Log Error ''Invalid username/password!'' []) s2 \<or>
          snd (execute opts n s) =
            snd (poll_loop opts n (emit (Log Info ''Successfully logged in'' []) s2))"
      using i Inr lg by (auto simp: execute_def split: sum.splits)
    with s2 poll_loop_settled[OF s3] show ?thesis by (auto simp: settled_snoc)
  qed
qed

lemma shutdown_settled:
  assumes "settled opts (trace s)"
  shows "settled opts (trace (snd (shutdown opts s)))"
proof -
  have "\<exists>e1 e2 e3. trace (snd (shutdown opts s)) = trace s @ [e1, e2] \<and> neutral opts e1 \<and> neutral opts e2
      \<or> trace (snd (shutdown opts s)) = trace s @ [e1, e2, e3] \<and> neutral opts e1 \<and> neutral opts e2 \<and> neutral opts e3"
    by (auto simp: shutdown_def logout_def session_get_def split: outcome.splits)
  then obtain evs where "trace (snd (shutdown opts s)) = trace s @ evs" "\<forall>e\<in>set evs. neutral opts e"
    by fastforce
  with settled_neutral[OF assms] show ?thesis by simp
qed

lemma main_settled:
  assumes "settled opts (trace s)"
  shows "settled opts (trace (snd (main opts n s)))"
proof -
  obtain er s1 where e: "execute opts n (Login_init opts s) = (er, s1)"
    by (cases "execute opts n (Login_init opts s)")
  have "settled opts (trace (Login_init opts s))" using assms by (simp add: Login_init_def)
  from execute_settled[OF this, of n] e have s1: "settled opts (trace s1)" by simp
  then have "settled opts (trace (emit
      (Log Info ''Received keyboard interrupt. Stopping running actions...'' []) s1))"
    by (simp add: settled_snoc)
  from shutdown_settled[OF this] s1 e show ?thesis
    by (auto simp: main_def split: option.splits stop.splits sum.splits prod.splits)
qed

lemma poll_loop_add:
  "poll_loop opts m s = (None, sm) \<Longrightarrow> poll_loop opts (m + k) s = poll_loop opts k sm"
proof (induction m arbitrary: s)
  case 0
  then show ?case by simp
next
  case (Suc m)
  from Suc.prems show ?case
    by (auto simp: Suc.IH split: prod.splits sum.splits if_splits outcome.splits)
qed

lemma execute_add:
  "execute opts m s = (None, sm) \<Longrightarrow> execute opts (m + k) s = poll_loop opts k sm"
  by (auto simp: execute_def poll_loop_add split: prod.splits sum.splits if_splits)

subsection \<open>Recovery\<close>

text \<open>
  C3. In a fresh process, whatever the server, the operator and the clock do and however
  long the process runs, the trace obeys the rule: each failed keep-alive poll is followed
  at once by the start of one login, a login starts only there (or after the warm-up
  request, for the first login), and no failed poll is left without its login. And when,
  after any number of turns of the loop, a poll fails and the login that follows reports
  failure, the process ends by \<^verbatim>\<open>sys.exit(0)\<close> with nothing further in the
  trace than the error line.
\<close>

theorem relogin_once:
  assumes "trace s = []"
  shows "settled opts (trace (snd (main opts fuel s))) \<and>
    (main opts m s = (None, sm) \<and>
     keepalive opts (emit (Log Info ''Sending keep-alive'' []) sm) = (Inr False, sk) \<and>
     login opts sk = (Inr False, sl) \<longrightarrow>
     main opts (m + Suc n) s =
       (Some (Exited 0), emit (Log Error ''Couldn't log back in'' []) sl))"
proof
  have "settled opts (trace s)" using assms by (simp add: settled_def)
  then show "settled opts (trace (snd (main opts fuel s)))" by (rule main_settled)
next
  show "main opts m s = (None, sm) \<and>
     keepalive opts (emit (Log Info ''Sending keep-alive'' []) sm) = (Inr False, sk) \<and>
     login opts sk = (Inr False, sl) \<longrightarrow>
     main opts (m + Suc n) s =
       (Some (Exited 0), emit (Log Error ''Couldn't log back in'' []) sl)"
  proof (intro impI, elim conjE)
    assume a: "main opts m s = (None, sm)"
      and k: "keepalive opts (emit (Log Info ''Sending keep-alive'' []) sm) = (Inr False, sk)"
      and l: "login opts sk = (Inr False, sl)"
    from a have "execute opts m (Login_init opts s) = (None, sm)"
      by (auto simp: main_def split: prod.splits option.splits stop.splits sum.splits if_splits)
    then have "execute opts (m + Suc n) (Login_init opts s) = poll_loop opts (Suc n) sm"
      by (rule execute_add)
    also have "\<dots> = (Some (SysExit 0), emit (Log Error ''Couldn't log back in'' []) sl)"
      using k l by simp
    finally show "main opts (m + Suc n) s =
       (Some (Exited 0), emit (Log Error ''Couldn't log back in'' []) sl)"
      by (simp add: main_def)
  qed
qed

theorem relogin_once_witness:
  "settled default_options (trace (snd (main default_options 2 lost_session))) \<and>
   fst (main default_options 2 lost_session) = Some (Exited 0) \<and>
   last (trace (snd (main default_options 2 lost_session))) =
     Log Error ''Couldn't log back in'' []"
  using relogin_once
    [where s = lost_session and opts = default_options and fuel = 2 and m = 1 and n = 0
       and sm = "snd (main default_options 1 lost_session)"
       and sk = "snd (keepalive default_options (emit (Log Info ''Sending keep-alive'' [])
                   (snd (main default_options 1 lost_session))))"
       and sl = "snd (login default_options
                   (snd (keepalive default_options (emit (Log Info ''Sending keep-alive'' [])
                      (snd (main default_options 1 lost_session))))))"]
  by (simp add: run_defs lost_session_def eval_nat_numeral)

subsection \<open>Exit codes\<close>

lemma get_passwd_no_exit: "fst (get_passwd opts s) \<noteq> Inl (SysExit c)"
  by (auto simp: get_passwd_def getpass_def split: outcome.splits option.splits)

lemma login_try_no_exit: "fst (login_try opts s) \<noteq> Inl (SysExit c)"
  using get_passwd_no_exit[of opts s c]
  by (auto simp: login_try_def session_post_def split: prod.splits sum.splits outcome.splits)

lemma login_loop_no_exit: "fst (login_loop opts n s) \<noteq> Inl (SysExit c)"
proof (induction n arbitrary: s)
  case 0
  show ?case by simp
next
  case (Suc n)
  have "fst (login_try opts s) \<noteq> Inl (SysExit c)" by (rule login_try_no_exit)
  with Suc show ?case
    by (auto simp: sleep_def split: prod.splits sum.splits outcome.splits)
qed

lemma login_loop_response:
  "login_loop opts n s = (Inr (m, resp), s') \<Longrightarrow> (m = 0 \<and> resp = None) \<or> (0 < m \<and> resp \<noteq> None)"
proof (induction n arbitrary: s m resp s')
  case 0
  then show ?case by simp
next
  case (Suc n)
  from Suc.prems show ?case
    by (auto simp: session_post_def sleep_def dest: Suc.IH
        split: prod.splits sum.splits outcome.splits if_splits)
qed

lemma login_no_exit: "fst (login opts s) \<noteq> Inl (SysExit c)"
  using login_loop_no_exit[of opts 5 "emit (Log Info ''Logging in...'' []) s" c]
    login_loop_response[of opts 5 "emit (Log Info ''Logging in...'' []) s"]
  by (auto simp: login_def split: prod.splits sum.splits option.splits)

lemma keepalive_no_exit: "fst (keepalive opts s) \<noteq> Inl (SysExit c)"
  by (auto simp: keepalive_def session_get_def split: outcome.splits)

lemma poll_loop_exit: "fst (poll_loop opts n s) = Some (SysExit c) \<Longrightarrow> c = 0"
proof (induction n arbitrary: s)
  case 0
  then show ?case by simp
next
  case (Suc n)
  define s0 where "s0 = emit (Log Info ''Sending keep-alive'' []) s"
  obtain kr s1 where k: "keepalive opts s0 = (kr, s1)" by (cases "keepalive opts s0")
  obtain lr s2 where l: "login opts s1 = (lr, s2)" by (cases "login opts s1")
  have "kr \<noteq> Inl (SysExit c)" using keepalive_no_exit[of opts s0 c] k by simp
  moreover have "lr \<noteq> Inl (SysExit c)" using login_no_exit[of opts s1 c] l by simp
  ultimately show ?case using Suc.prems k l
    by (auto simp: s0_def[symmetric] sleep_def dest: Suc.IH split: sum.splits if_splits outcome.splits)
qed

lemma shutdown_no_exit: "fst (shutdown opts s) \<noteq> Inl (SysExit c)"
  by (auto simp: shutdown_def logout_def session_get_def split: outcome.splits)

lemma login_False_iff:
  "fst (login opts s) = Inr False \<longleftrightarrow>
     (\<exists>n resp s2. login_loop opts 5 (emit (Log Info ''Logging in...'' []) s) = (Inr (n, resp), s2) \<and>
        (n = 0 \<or> (\<exists>r. resp = Some r \<and> endswith (url r) ''index.php'')))"
  using login_loop_response[of opts 5 "emit (Log Info ''Logging in...'' []) s"]
  by (auto simp: login_def split: prod.splits sum.splits option.splits)

lemma init_session_exit: "fst (init_session opts s) = Inl (SysExit c) \<Longrightarrow> c = 1"
  by (auto simp: init_session_def session_get_def split: outcome.splits if_splits)

lemma execute_exit_iff:
  "fst (execute opts fuel t) = Some (SysExit (- 1)) \<longleftrightarrow>
     (\<exists>s1. init_session opts t = (Inr (), s1) \<and> fst (login opts s1) = Inr False)"
proof -
  obtain ir s1 where i: "init_session opts t = (ir, s1)" by (cases "init_session opts t")
  show ?thesis
  proof (cases ir)
    case (Inl st)
    have "st \<noteq> SysExit (- 1)" using init_session_exit[of opts t "- 1"] i Inl by auto
    with i Inl show ?thesis by (simp add: execute_def)
  next
    case (Inr u)
    obtain lr s2 where l: "login opts s1 = (lr, s2)" by (cases "login opts s1")
    show ?thesis
    proof (cases lr)
      case (Inl st)
      have "st \<noteq> SysExit (- 1)" using login_no_exit[of opts s1 "- 1"] l Inl by auto
      with i Inr l Inl show ?thesis by (simp add: execute_def)
    next
      case ok: (Inr ok)
      show ?thesis
      proof (cases ok)
        case True
        have "fst (poll_loop opts fuel (emit (Log Info ''Successfully logged in'' []) s2))
            \<noteq> Some (SysExit (- 1))"
          using poll_loop_exit[of opts fuel _ "- 1"] by auto
        with i Inr l ok True show ?thesis by (simp add: execute_def)
      next
        case False
        with i Inr l ok show ?thesis by (simp add: execute_def)
      qed
    qed
  qed
qed

lemma main_exit_iff:
  "fst (main opts fuel s) = Some (Exited c) \<longleftrightarrow>
   fst (execute opts fuel (Login_init opts s)) = Some (SysExit c)"
proof -
  obtain er s1 where e: "execute opts fuel (Login_init opts s) = (er, s1)"
    by (cases "execute opts fuel (Login_init opts s)")
  show ?thesis
  proof (cases er)
    case None
    with e show ?thesis by (simp add: main_def)
  next
    case (Some st)
    show ?thesis
    proof (cases st)
      case (SysExit c')
      with e Some show ?thesis by (simp add: main_def)
    next
      case (Uncaught x)
      define t where "t = emit (Log Info ''Received keyboard interrupt. Stopping running actions...'' []) s1"
      obtain sr s2 where sh: "shutdown opts t = (sr, s2)" by (cases "shutdown opts t")
      have "sr \<noteq> Inl (SysExit c)" using shutdown_no_exit[of opts t c] sh by simp
      with e Some Uncaught sh show ?thesis
        by (auto simp: main_def t_def[symmetric] split: sum.splits stop.splits)
    qed
  qed
qed

text \<open>
  C2, as the code has it. The process ends by \<^verbatim>\<open>sys.exit(-1)\<close> exactly when the
  warm-up request went through and the retry loop of the first login call ends either
  with the budget at 0 or with a response whose URL ends with \<^verbatim>\<open>index.php\<close>.
  Nothing later gives this code: a failed login after a lost session ends the process
  with code 0, and neither the polling loop nor the shutdown exits with another one.
\<close>

theorem exit_minus_one_iff:
  "fst (main opts fuel s) = Some (Exited (- 1)) \<longleftrightarrow>
     (\<exists>s1 n resp s2.
        init_session opts (Login_init opts s) = (Inr (), s1) \<and>
        login_loop opts 5 (emit (Log Info ''Logging in...'' []) s1) = (Inr (n, resp), s2) \<and>
        (n = 0 \<or> (\<exists>r. resp = Some r \<and> endswith (url r) ''index.php'')))"
  unfolding main_exit_iff execute_exit_iff login_False_iff by blast

theorem exit_minus_one_iff_witness:
  "\<exists>s1 n resp s2.
      init_session default_options (Login_init default_options no_connection) = (Inr (), s1) \<and>
      login_loop default_options 5 (emit (Log Info ''Logging in...'' []) s1) = (Inr (n, resp), s2) \<and>
      (n = 0 \<or> (\<exists>r. resp = Some r \<and> endswith (url r) ''index.php''))"
proof -
  have "fst (main default_options 0 no_connection) = Some (Exited (- 1))"
    by (simp add: run_defs no_connection_def eval_nat_numeral)
  then show ?thesis by (simp only: exit_minus_one_iff)
qed

text \<open>
  As C2 is worded it fails twice. With no connection after the warm-up, the five attempts
  of the first login all raise, no response ever arrives, and the process exits with -1.
  And when the session is lost later and the last login attempt is sent back to the
  landing page, the exit code is 0.
\<close>

theorem exit_minus_one_counterexample:
  "fst (main default_options 0 no_connection) = Some (Exited (- 1)) \<and>
   filter is_post (trace (snd (main default_options 0 no_connection))) =
     replicate 5 (Post ''https://zerberus.ba-horb.de/login-exec.php''
       [(''username'', ''student''), (''password'', ''secret''), (''submit'', ''Log on'')]
       (Raises ConnectionError)) \<and>
   fst (main default_options 2 lost_session) = Some (Exited 0) \<and>
   last (filter is_post (trace (snd (main default_options 2 lost_session)))) =
     Post ''https://zerberus.ba-horb.de/login-exec.php''
       [(''username'', ''student''), (''password'', ''secret''), (''submit'', ''Log on'')]
       (Returns (page ''https://zerberus.ba-horb.de/index.php'' 200))"
  by (simp add: run_defs no_connection_def lost_session_def eval_nat_numeral)

subsection \<open>The retry loop of a login\<close>

lemma get_passwd_answered:
  assumes "shd (tty s) = Returns p"
  shows "\<exists>pw s1. get_passwd opts s = (Inr pw, s1) \<and> http s1 = http s \<and> naps s1 = naps s \<and>
           (tty s1 = tty s \<or> tty s1 = stl (tty s)) \<and> posts s1 = posts s"
  using assms
  by (auto simp: get_passwd_def getpass_def posts_def split: option.splits)

text \<open>One failed attempt of the retry loop, when the prompt is answered and the sleep is
  not interrupted.\<close>

lemma login_loop_retry:
  assumes "shd (http s) = Raises ConnectionError" "\<exists>p. shd (tty s) = Returns p"
    "shd (naps s) = Returns ()"
  shows "\<exists>s3. login_loop opts (Suc n) s = login_loop opts n s3 \<and> http s3 = stl (http s) \<and>
           naps s3 = stl (naps s) \<and> (tty s3 = tty s \<or> tty s3 = stl (tty s)) \<and>
           posts s3 = Suc (posts s)"
proof -
  from assms(2) obtain p where "shd (tty s) = Returns p" by blast
  from get_passwd_answered[OF this, of opts] obtain pw s1 where
    g: "get_passwd opts s = (Inr pw, s1)" "http s1 = http s" "naps s1 = naps s"
       "tty s1 = tty s \<or> tty s1 = stl (tty s)" "posts s1 = posts s" by blast
  define s3 where "s3 = snd (sleep 30 (emit (Log Warning ''No connection possible... %d retries left'' [int (Suc n)])
      (snd (session_post (build_url opts ''login-exec.php'')
                  [(''username'', username opts), (''password'', pw), (''submit'', ''Log on'')] s1))))"
  have h3: "http s3 = stl (http s)" "naps s3 = stl (naps s)" "tty s3 = tty s1" "posts s3 = Suc (posts s)"
    using g by (simp_all add: s3_def sleep_def session_post_def posts_def)
  have "login_loop opts (Suc n) s = login_loop opts n s3"
    using g assms(1,3) by (simp add: s3_def login_try_def session_post_def sleep_def)
  with h3 g(4) show ?thesis by metis
qed

lemma tty_shift:
  assumes "\<forall>i\<le>Suc k. \<exists>p. tty s !! i = Returns p" "t = tty s \<or> t = stl (tty s)"
  shows "\<forall>i\<le>k. \<exists>p. t !! i = Returns p"
proof (intro allI impI)
  fix i assume "i \<le> k"
  then have "i \<le> Suc k" "Suc i \<le> Suc k" by simp_all
  with assms(1) have b: "\<exists>p. tty s !! i = Returns p" and c: "\<exists>p. tty s !! Suc i = Returns p"
    by blast+
  from c have "\<exists>p. stl (tty s) !! i = Returns p" by simp
  with b assms(2) show "\<exists>p. t !! i = Returns p" by metis
qed

lemma login_loop_errors:
  assumes "k < n"
    and "stake k (http s) = replicate k (Raises ConnectionError)"
    and "http s !! k = Returns r"
    and "\<forall>i\<le>k. \<exists>p. tty s !! i = Returns p"
    and "\<forall>i<k. naps s !! i = Returns ()"
  shows "\<exists>s'. login_loop opts n s = (Inr (n - k, Some r), s') \<and>
            http s' = sdrop (Suc k) (http s) \<and> posts s' = posts s + Suc k"
  using assms
proof (induction k arbitrary: n s)
  case 0
  then obtain m where n: "n = Suc m" by (cases n) auto
  from 0 obtain p where "shd (tty s) = Returns p" by auto
  from get_passwd_answered[OF this, of opts] obtain pw s1 where
    g: "get_passwd opts s = (Inr pw, s1)" "http s1 = http s" "posts s1 = posts s" by blast
  with 0 show ?case
    by (simp add: n login_try_def session_post_def posts_def)
next
  case (Suc k)
  then obtain m where n: "n = Suc m" and km: "k < m" by (cases n) auto
  have "shd (http s) = Raises ConnectionError" using Suc.prems(2) by simp
  moreover have "\<exists>p. shd (tty s) = Returns p" using Suc.prems(4) by force
  moreover have "shd (naps s) = Returns ()" using Suc.prems(5) by force
  ultimately obtain s3 where s3: "login_loop opts (Suc m) s = login_loop opts m s3"
    "http s3 = stl (http s)" "naps s3 = stl (naps s)" "tty s3 = tty s \<or> tty s3 = stl (tty s)"
    "posts s3 = Suc (posts s)"
    using login_loop_retry[of s opts m] by blast
  have a1: "stake k (http s3) = replicate k (Raises ConnectionError)"
    using Suc.prems(2) s3 by simp
  have a2: "http s3 !! k = Returns r" using Suc.prems(3) s3 by simp
  have a3: "\<forall>i\<le>k. \<exists>p. tty s3 !! i = Returns p"
    using Suc.prems(4) s3(4) by (rule tty_shift)
  have a4: "\<forall>i<k. naps s3 !! i = Returns ()" using Suc.prems(5) s3 by auto
  from Suc.IH[OF km a1 a2 a3 a4] obtain s' where
    r: "login_loop opts m s3 = (Inr (m - k, Some r), s')" "http s' = sdrop (Suc k) (http s3)"
       "posts s' = posts s3 + Suc k" by blast
  with s3 show ?case by (simp add: n)
qed

lemma login_loop_exhausted:
  assumes "stake n (http s) = replicate n (Raises ConnectionError)"
    and "\<forall>i<n. \<exists>p. tty s !! i = Returns p"
    and "\<forall>i<n. naps s !! i = Returns ()"
  shows "\<exists>s'. login_loop opts n s = (Inr (0, None), s') \<and>
            http s' = sdrop n (http s) \<and> posts s' = posts s + n"
  using assms
proof (induction n arbitrary: s)
  case 0
  show ?case by simp
next
  case (Suc n)
  have "shd (http s) = Raises ConnectionError" using Suc.prems(1) by simp
  moreover have "\<exists>p. shd (tty s) = Returns p" using Suc.prems(2) by force
  moreover have "shd (naps s) = Returns ()" using Suc.prems(3) by force
  ultimately obtain s3 where s3: "login_loop opts (Suc n) s = login_loop opts n s3"
    "http s3 = stl (http s)" "naps s3 = stl (naps s)" "tty s3 = tty s \<or> tty s3 = stl (tty s)"
    "posts s3 = Suc (posts s)"
    using login_loop_retry[of s opts n] by blast
  have a1: "stake n (http s3) = replicate n (Raises ConnectionError)"
    using Suc.prems(1) s3 by simp
  have a3: "\<forall>i<n. \<exists>p. tty s3 !! i = Returns p"
  proof (cases n)
    case 0 then show ?thesis by simp
  next
    case (Suc k)
    have "\<forall>i\<le>Suc k. \<exists>p. tty s !! i = Returns p" using Suc.prems(2) Suc by (simp add: less_Suc_eq_le)
    from tty_shift[OF this s3(4)] show ?thesis using Suc by (simp add: less_Suc_eq_le)
  qed
  have a4: "\<forall>i<n. naps s3 !! i = Returns ()" using Suc.prems(3) s3 by auto
  from Suc.IH[OF a1 a3 a4] s3 show ?case by auto
qed

text \<open>
  C1, as the code has it. Take any state, so whatever earlier logins did. If the first
  \<open>k\<close> attempts of a login raise connection errors, with \<open>k\<close> below 5, and the
  next attempt gets a response whose URL does not end with \<^verbatim>\<open>index.php\<close>, the
  login reports success. The loop ends with \<open>5 - k\<close> of its budget left, and the call
  has made \<open>k + 1\<close> requests. The prompts that are shown are answered and the sleeps
  between the attempts are not interrupted.
\<close>

theorem login_after_errors:
  assumes "k < 5"
    and "stake k (http s) = replicate k (Raises ConnectionError)"
    and "http s !! k = Returns r"
    and "\<not> endswith (url r) ''index.php''"
    and "\<forall>i\<le>k. \<exists>p. tty s !! i = Returns p"
    and "\<forall>i<k. naps s !! i = Returns ()"
  shows "fst (login opts s) = Inr True \<and>
         fst (login_loop opts 5 (emit (Log Info ''Logging in...'' []) s)) = Inr (5 - k, Some r) \<and>
         posts (snd (login opts s)) = posts s + Suc k \<and>
         http (snd (login opts s)) = sdrop (Suc k) (http s)"
proof -
  define s0 where "s0 = emit (Log Info ''Logging in...'' []) s"
  have "\<exists>s'. login_loop opts 5 s0 = (Inr (5 - k, Some r), s') \<and>
            http s' = sdrop (Suc k) (http s0) \<and> posts s' = posts s0 + Suc k"
    using assms by (intro login_loop_errors) (simp_all add: s0_def)
  then obtain s' where l: "login_loop opts 5 s0 = (Inr (5 - k, Some r), s')"
    "http s' = sdrop (Suc k) (http s0)" "posts s' = posts s0 + Suc k" by blast
  have "posts s0 = posts s" by (simp add: s0_def posts_def)
  with l assms(1,4) show ?thesis
    by (simp add: login_def s0_def[symmetric]) (simp add: s0_def)
qed

theorem login_after_errors_witness:
  "fst (login default_options four_errors_twice) = Inr True \<and>
   fst (login default_options (snd (login default_options four_errors_twice))) = Inr True \<and>
   posts (snd (login default_options (snd (login default_options four_errors_twice)))) = 10"
  using login_after_errors
    [of 4 four_errors_twice "page ''https://zerberus.ba-horb.de/welcome.php'' 200" default_options]
    login_after_errors
    [of 4 "snd (login default_options four_errors_twice)"
        "page ''https://zerberus.ba-horb.de/welcome.php'' 200" default_options]
  by (simp add: run_defs four_errors_twice_def posts_def eval_nat_numeral)

text \<open>
  With \<open>k = 5\<close> the claim fails: after five connection errors the budget is used up,
  the sixth request is never made, and the login reports failure although the server
  would have accepted it.
\<close>

theorem login_after_errors_counterexample:
  "stake 5 (http five_errors) = replicate 5 (Raises ConnectionError) \<and>
   http five_errors !! 5 = Returns (page ''https://zerberus.ba-horb.de/welcome.php'' 200) \<and>
   \<not> endswith (url (page ''https://zerberus.ba-horb.de/welcome.php'' 200)) ''index.php'' \<and>
   fst (login default_options five_errors) = Inr False \<and>
   posts (snd (login default_options five_errors)) = 5"
  by (simp add: run_defs five_errors_def posts_def eval_nat_numeral)

subsection \<open>The success checks\<close>

text \<open>
  C4, as the code has it. The keep-alive check reports failure exactly when the request
  raises a connection error or the URL of the response ends with \<^verbatim>\<open>index.php\<close>;
  given a response, its verdict is a function of the URL alone, so neither the status nor
  the body plays a part. The login check gives the same verdict on the response it gets
  after fewer than five connection errors, and reports failure after five of them, when
  there is no response to look at.
\<close>

theorem success_checks:
  "(fst (keepalive opts s) = Inr False \<longleftrightarrow>
      shd (http s) = Raises ConnectionError \<or>
      (\<exists>r. shd (http s) = Returns r \<and> endswith (url r) ''index.php'')) \<and>
   (shd (http s) = Returns r \<longrightarrow>
      fst (keepalive opts s) = Inr (\<not> endswith (url r) ''index.php'')) \<and>
   (k < 5 \<and> stake k (http s) = replicate k (Raises ConnectionError) \<and> http s !! k = Returns r \<and>
    (\<forall>i\<le>k. \<exists>p. tty s !! i = Returns p) \<and> (\<forall>i<k. naps s !! i = Returns ()) \<longrightarrow>
      fst (login opts s) = Inr (\<not> endswith (url r) ''index.php'')) \<and>
   (stake 5 (http s) = replicate 5 (Raises ConnectionError) \<and>
    (\<forall>i<5. \<exists>p. tty s !! i = Returns p) \<and> (\<forall>i<5. naps s !! i = Returns ()) \<longrightarrow>
      fst (login opts s) = Inr False)"
proof (intro conjI impI)
  show "fst (keepalive opts s) = Inr False \<longleftrightarrow>
      shd (http s) = Raises ConnectionError \<or>
      (\<exists>r. shd (http s) = Returns r \<and> endswith (url r) ''index.php'')"
    by (auto simp: keepalive_def session_get_def split: outcome.splits)
next
  assume "shd (http s) = Returns r"
  then show "fst (keepalive opts s) = Inr (\<not> endswith (url r) ''index.php'')"
    by (simp add: keepalive_def session_get_def)
next
  assume a: "k < 5 \<and> stake k (http s) = replicate k (Raises ConnectionError) \<and>
    http s !! k = Returns r \<and>
    (\<forall>i\<le>k. \<exists>p. tty s !! i = Returns p) \<and> (\<forall>i<k. naps s !! i = Returns ())"
  define s0 where "s0 = emit (Log Info ''Logging in...'' []) s"
  have "\<exists>s'. login_loop opts 5 s0 = (Inr (5 - k, Some r), s') \<and>
            http s' = sdrop (Suc k) (http s0) \<and> posts s' = posts s0 + Suc k"
    using a by (intro login_loop_errors) (simp_all add: s0_def)
  then obtain s' where "login_loop opts 5 s0 = (Inr (5 - k, Some r), s')" by blast
  with a show "fst (login opts s) = Inr (\<not> endswith (url r) ''index.php'')"
    by (simp add: login_def s0_def[symmetric])
next
  assume a: "stake 5 (http s) = replicate 5 (Raises ConnectionError) \<and>
    (\<forall>i<5. \<exists>p. tty s !! i = Returns p) \<and> (\<forall>i<5. naps s !! i = Returns ())"
  define s0 where "s0 = emit (Log Info ''Logging in...'' []) s"
  have "\<exists>s'. login_loop opts 5 s0 = (Inr (0, None), s') \<and>
            http s' = sdrop 5 (http s0) \<and> posts s' = posts s0 + 5"
    using a by (intro login_loop_exhausted) (simp_all add: s0_def)
  then obtain s' where "login_loop opts 5 s0 = (Inr (0, None), s')" by blast
  then show "fst (login opts s) = Inr False"
    by (simp add: login_def s0_def[symmetric])
qed

theorem success_checks_witness:
  "fst (keepalive default_options other_page) = Inr False \<and>
   fst (keepalive default_options query_page) = Inr True \<and>
   fst (login default_options four_errors_twice) = Inr True \<and>
   fst (login default_options offline) = Inr False"
  using success_checks
    [of default_options other_page "page ''https://zerberus.ba-horb.de/portal/noindex.php'' 200" 0]
    success_checks
    [of default_options query_page "page ''https://zerberus.ba-horb.de/index.php?lang=de'' 200" 0]
    success_checks
    [of default_options four_errors_twice "page ''https://zerberus.ba-horb.de/welcome.php'' 200" 4]
    success_checks
    [of default_options offline "page ''https://zerberus.ba-horb.de/welcome.php'' 200" 0]
  by (simp add: run_defs other_page_def query_page_def four_errors_twice_def offline_def
      eval_nat_numeral)

text \<open>
  As C4 is worded it fails in three ways. A login fails without any response, on
  connection errors alone. A response at the landing page with a query string has the
  landing page's path and yet counts as success; a response at another page whose URL
  ends with \<^verbatim>\<open>index.php\<close> has another path and yet counts as failure.
\<close>

theorem success_checks_counterexample:
  "fst (login default_options offline) = Inr False \<and>
   filter is_post (trace (snd (login default_options offline))) =
     replicate 5 (Post ''https://zerberus.ba-horb.de/login-exec.php''
       [(''username'', ''student''), (''password'', ''secret''), (''submit'', ''Log on'')]
       (Raises ConnectionError)) \<and>
   url_path ''https://zerberus.ba-horb.de/index.php?lang=de'' = landing_page_path \<and>
   fst (keepalive default_options query_page) = Inr True \<and>
   url_path ''https://zerberus.ba-horb.de/portal/noindex.php'' \<noteq> landing_page_path \<and>
   fst (keepalive default_options other_page) = Inr False"
  by (simp add: run_defs other_page_def query_page_def offline_def url_path_def
      landing_page_path_def eval_nat_numeral)

subsection \<open>Credential prompts\<close>

lemma paired_Nil [simp]: "paired []"
  by (simp add: paired_def)

lemma paired_single: "typed e = None \<Longrightarrow> sent e = None \<Longrightarrow> paired [e]"
  by (simp add: paired_def)

lemma paired_attempt:
  "map_of d ''password'' = Some p \<Longrightarrow> paired [Prompt m (Returns p), Post u d out]"
  by (simp add: paired_def)

lemma paired_append: "paired xs \<Longrightarrow> paired ys \<Longrightarrow> paired (xs @ ys)"
  by (cases "xs = []"; cases "ys = []") (auto simp: paired_def successively_append_iff)

lemma paired_snoc: "paired xs \<Longrightarrow> typed e = None \<Longrightarrow> sent e = None \<Longrightarrow> paired (xs @ [e])"
  by (simp add: paired_append paired_single)

lemma keeps_refl [simp]: "keeps s s"
  by (simp add: keeps_def)

lemma keeps_trans: "keeps s t \<Longrightarrow> keeps t u \<Longrightarrow> keeps s u"
  unfolding keeps_def by (metis append.assoc paired_append)

lemma keeps_emit: "typed e = None \<Longrightarrow> sent e = None \<Longrightarrow> keeps s t \<Longrightarrow> keeps s (emit e t)"
  unfolding keeps_def by (auto simp: paired_snoc)

lemma keeps_emit_self: "typed e = None \<Longrightarrow> sent e = None \<Longrightarrow> keeps s (emit e s)"
  by (simp add: keeps_emit)

lemma keeps_session_get: "keeps s (snd (session_get u s))"
  by (simp add: session_get_def keeps_def paired_single)

lemma keeps_sleep: "keeps s (snd (sleep d s))"
  by (simp add: sleep_def keeps_def paired_single)

lemma keeps_login_try:
  assumes "truthy (safe_mode opts)"
  shows "keeps s (snd (login_try opts s))"
proof (cases "shd (tty s)")
  case (Raises e)
  then have "snd (login_try opts s) = emit (Prompt ''Password: '' (Raises e)) (s\<lparr>tty := stl (tty s)\<rparr>)"
    using assms by (simp add: login_try_def get_passwd_def getpass_def)
  then show ?thesis by (simp add: keeps_def paired_single)
next
  case (Returns p)
  define d where "d = [(''username'', username opts), (''password'', p), (''submit'', ''Log on'')]"
  define u where "u = build_url opts ''login-exec.php''"
  have "trace (snd (login_try opts s)) =
      trace s @ [Prompt ''Password: '' (Returns p), Post u d (shd (http s))]"
    "password (snd (login_try opts s)) = password s"
    using assms Returns
    by (auto simp: login_try_def get_passwd_def getpass_def session_post_def u_def d_def
        split: outcome.splits)
  moreover have "paired [Prompt ''Password: '' (Returns p), Post u d (shd (http s))]"
    by (rule paired_attempt) (simp add: d_def)
  ultimately show ?thesis unfolding keeps_def by blast
qed

lemma keeps_login_loop:
  assumes "truthy (safe_mode opts)"
  shows "keeps s (snd (login_loop opts n s))"
proof (induction n arbitrary: s)
  case 0
  show ?case by simp
next
  case (Suc n)
  define s2 where "s2 = snd (login_try opts s)"
  define s3 where "s3 = snd (sleep 30
      (emit (Log Warning ''No connection possible... %d retries left'' [int (Suc n)]) s2))"
  have k2: "keeps s s2" unfolding s2_def using assms by (rule keeps_login_try)
  have "keeps s2 s3"
    unfolding s3_def by (rule keeps_trans[OF keeps_emit_self keeps_sleep]) simp_all
  with k2 have k3: "keeps s s3" by (rule keeps_trans)
  have k4: "keeps s (snd (login_loop opts n s3))" using k3 Suc[of s3] by (rule keeps_trans)
  have "snd (login_loop opts (Suc n) s) = s2 \<or> snd (login_loop opts (Suc n) s) = s3
      \<or> snd (login_loop opts (Suc n) s) = snd (login_loop opts n s3)"
    by (auto simp: s2_def s3_def split: prod.splits sum.splits outcome.splits)
  with k2 k3 k4 show ?case by auto
qed

lemma keeps_login:
  assumes "truthy (safe_mode opts)"
  shows "keeps s (snd (login opts s))"
proof -
  define s0 where "s0 = emit (Log Info ''Logging in...'' []) s"
  have "keeps s s0" by (simp add: s0_def keeps_emit)
  moreover have "keeps s0 (snd (login_loop opts 5 s0))"
    using assms by (rule keeps_login_loop)
  ultimately have "keeps s (snd (login_loop opts 5 s0))" by (rule keeps_trans)
  moreover have "snd (login opts s) = snd (login_loop opts 5 s0)"
    by (auto simp: login_def s0_def split: prod.splits sum.splits option.splits)
  ultimately show ?thesis by simp
qed

lemma keeps_keepalive: "keeps s (snd (keepalive opts s))"
proof -
  have "snd (keepalive opts s) = snd (session_get (build_url opts ''online.php'') s)"
    by (auto simp: keepalive_def split: prod.splits outcome.splits)
  then show ?thesis by (simp add: keeps_session_get)
qed

lemma keeps_poll_loop:
  assumes "truthy (safe_mode opts)"
  shows "keeps s (snd (poll_loop opts n s))"
proof (induction n arbitrary: s)
  case 0
  show ?case by simp
next
  case (Suc n)
  define s0 where "s0 = emit (Log Info ''Sending keep-alive'' []) s"
  define s1 where "s1 = snd (keepalive opts s0)"
  define s2 where "s2 = snd (login opts s1)"
  define s3 where "s3 = snd (sleep (timeout opts) s1)"
  have k1: "keeps s s1"
    unfolding s0_def s1_def by (rule keeps_trans[OF keeps_emit_self keeps_keepalive]) simp_all
  have k2: "keeps s s2" using k1 keeps_login[OF assms, of s1] by (auto simp: s2_def intro: keeps_trans)
  have k3: "keeps s s3" using k1 keeps_sleep[of s1] by (auto simp: s3_def intro: keeps_trans)
  have k4: "keeps s (emit (Log Error ''Couldn't log back in'' []) s2)"
    using k2 by (simp add: keeps_emit)
  have k5: "keeps s (snd (poll_loop opts n s2))" using k2 Suc[of s2] by (rule keeps_trans)
  have k6: "keeps s (snd (poll_loop opts n s3))" using k3 Suc[of s3] by (rule keeps_trans)
  have "snd (poll_loop opts (Suc n) s) \<in>
      {s1, s2, s3, emit (Log Error ''Couldn't log back in'' []) s2,
       snd (poll_loop opts n s2), snd (poll_loop opts n s3)}"
    by (auto simp: s0_def[symmetric] s1_def s2_def s3_def split: prod.splits sum.splits outcome.splits)
  with k1 k2 k3 k4 k5 k6 show ?case by auto
qed

lemma keeps_init_session: "keeps s (snd (init_session opts s))"
proof -
  define s0 where "s0 = emit (Log Info ''Initializing session...'' []) s"
  define s1 where "s1 = snd (session_get (build_url opts ''index.php'') s0)"
  have k1: "keeps s s1"
    unfolding s0_def s1_def by (rule keeps_trans[OF keeps_emit_self keeps_session_get]) simp_all
  have "snd (init_session opts s) = s1 \<or> (\<exists>m. snd (init_session opts s) = emit (Log Fatal m []) s1)"
    by (auto simp: init_session_def s0_def[symmetric] s1_def split: prod.splits outcome.splits)
  with k1 show ?thesis by (auto simp: keeps_emit)
qed

lemma keeps_execute:
  assumes "truthy (safe_mode opts)"
  shows "keeps s (snd (execute opts n s))"
proof -
  define s1 where "s1 = snd (init_session opts s)"
  define s2 where "s2 = snd (login opts s1)"
  define s3 where "s3 = emit (Log Info ''Successfully logged in'' []) s2"
  have k1: "keeps s s1" by (simp add: s1_def keeps_init_session)
  have k2: "keeps s s2" using k1 keeps_login[OF assms, of s1] by (auto simp: s2_def intro: keeps_trans)
  have k3: "keeps s s3" using k2 by (simp add: s3_def keeps_emit)
  have k4: "keeps s (emit (Log Error ''Invalid username/password!'' []) s2)"
    using k2 by (simp add: keeps_emit)
  have k5: "keeps s (snd (poll_loop opts n s3))"
    using k3 keeps_poll_loop[OF assms, of s3 n] by (rule keeps_trans)
  have "snd (execute opts n s) \<in>
      {s1, s2, emit (Log Error ''Invalid username/password!'' []) s2, snd (poll_loop opts n s3)}"
    by (auto simp: execute_def s1_def s2_def s3_def split: prod.splits sum.splits)
  with k1 k2 k4 k5 show ?thesis by auto
qed

lemma keeps_shutdown: "keeps s (snd (shutdown opts s))"
proof -
  define s0 where "s0 = emit (Log Info ''Logging out...'' []) s"
  define s1 where "s1 = snd (session_get (build_url opts ''logout.php'') s0)"
  have k1: "keeps s s1"
    unfolding s0_def s1_def by (rule keeps_trans[OF keeps_emit_self keeps_session_get]) simp_all
  have "snd (shutdown opts s) = s1 \<or> (\<exists>l m. snd (shutdown opts s) = emit (Log l m []) s1)"
    by (auto simp: shutdown_def logout_def s0_def[symmetric] s1_def split: prod.splits outcome.splits)
  with k1 show ?thesis by (auto simp: keeps_emit)
qed

lemma keeps_main:
  assumes "truthy (safe_mode opts)"
  shows "keeps (Login_init opts s) (snd (main opts n s))"
proof -
  define s1 where "s1 = snd (execute opts n (Login_init opts s))"
  define s2 where "s2 = emit (Log Info ''Received keyboard interrupt. Stopping running actions...'' []) s1"
  have k1: "keeps (Login_init opts s) s1" by (simp add: s1_def keeps_execute[OF assms])
  have k2: "keeps (Login_init opts s) s2" using k1 by (simp add: s2_def keeps_emit)
  have k3: "keeps (Login_init opts s) (snd (shutdown opts s2))"
    using k2 keeps_shutdown by (rule keeps_trans)
  have "snd (main opts n s) = s1 \<or> snd (main opts n s) = snd (shutdown opts s2)"
    by (auto simp: main_def s1_def s2_def split: prod.splits option.splits stop.splits sum.splits)
  with k1 k3 show ?thesis by auto
qed

lemma cached_asked_once: "cached s \<Longrightarrow> asked_once (trace s)"
proof (cases "password s")
  case None
  assume "cached s"
  with None have "\<forall>e\<in>set (trace s). \<not> is_prompt e \<and> \<not> is_post e" by (simp add: cached_def)
  then have "filter is_prompt (trace s) = []" "\<forall>e\<in>set (trace s). \<not> is_post e"
    by (auto simp: filter_empty_conv)
  then show ?thesis by (simp add: asked_once_def)
next
  case (Some p)
  assume "cached s"
  with Some have f: "filter is_prompt (trace s) = [Prompt ''Password: '' (Returns p)]"
    and a: "\<forall>e\<in>set (trace s). is_post e \<longrightarrow> sent e = Some p" by (simp_all add: cached_def)
  from f have "Prompt ''Password: '' (Returns p) \<in> set (filter is_prompt (trace s))" by simp
  then have "Prompt ''Password: '' (Returns p) \<in> set (trace s)" by simp
  with f a show ?thesis by (auto simp: asked_once_def)
qed

lemma asked_once_quiet: "asked_once tr \<Longrightarrow> quiet e \<Longrightarrow> asked_once (tr @ [e])"
  by (auto simp: asked_once_def quiet_def)

lemma cached_quiet: "cached s \<Longrightarrow> quiet e \<Longrightarrow> cached (emit e s)"
  by (auto simp: cached_def quiet_def split: option.splits)

lemma cached_fields [simp]:
  "cached (s\<lparr>http := h\<rparr>) = cached s" "cached (s\<lparr>naps := n\<rparr>) = cached s"
  by (simp_all add: cached_def split: option.splits)

lemma no_connection_error_stl: "no_connection_error t \<Longrightarrow> no_connection_error (stl t)"
  by (auto simp: no_connection_error_def dest: stl_sset)

lemma no_connection_error_shd: "no_connection_error t \<Longrightarrow> shd t \<noteq> Raises ConnectionError"
  using shd_sset[of t] by (auto simp: no_connection_error_def)

lemma quiet_simps [simp]: "quiet (Log l m a)" "quiet (Get u out)" "quiet (Sleep d)"
  by (simp_all add: quiet_def)

lemma fine_Inl [simp]: "fine (Inl st, s) = asked_once (trace s)"
  by (simp add: fine_def)

lemma fine_Inr [simp]: "fine (Inr x, s) = cached s"
  by (simp add: fine_def)

lemma cached_sleep: "cached s \<Longrightarrow> cached (snd (sleep d s))"
  by (simp add: sleep_def cached_quiet)

lemma cached_session_get: "cached s \<Longrightarrow> cached (snd (session_get u s))"
  by (simp add: session_get_def cached_quiet)

lemma login_try_fine:
  assumes "\<not> truthy (safe_mode opts)" "cached s"
  shows "fine (login_try opts s) \<and>
         (fst (login_try opts s) = Inl (Uncaught ConnectionError) \<longrightarrow>
            cached (snd (login_try opts s)))"
proof (cases "password s = None \<and> (\<exists>e. shd (tty s) = Raises e)")
  case True
  then obtain e where e: "shd (tty s) = Raises e" and n: "password s = None" by blast
  have "e \<noteq> ConnectionError"
    using assms(2) e no_connection_error_shd[of "tty s"] by (auto simp: cached_def)
  moreover have "login_try opts s =
      (Inl (Uncaught e), emit (Prompt ''Password: '' (Raises e)) (s\<lparr>tty := stl (tty s)\<rparr>))"
    using assms(1) e n by (simp add: login_try_def get_passwd_def getpass_def)
  moreover have "asked_once (trace s @ [Prompt ''Password: '' (Raises e)])"
    using assms(2) n by (auto simp: cached_def asked_once_def filter_empty_conv)
  ultimately show ?thesis by simp
next
  case False
  then obtain p s1 where g: "get_passwd opts s = (Inr p, s1)" and p: "password s1 = Some p"
    and t: "password s = Some p \<and> trace s1 = trace s \<or>
            password s = None \<and> trace s1 = trace s @ [Prompt ''Password: '' (Returns p)]"
    and y: "tty s1 = tty s \<or> tty s1 = stl (tty s)"
    using assms(1)
    by (cases "password s"; cases "shd (tty s)") (auto simp: get_passwd_def getpass_def)
  have "no_connection_error (tty s1)"
    using assms(2) y no_connection_error_stl[of "tty s"] by (auto simp: cached_def)
  then have c1: "cached s1"
    using assms(2) p t by (auto simp: cached_def filter_empty_conv)
  define d where "d = [(''username'', username opts), (''password'', p), (''submit'', ''Log on'')]"
  define u where "u = build_url opts ''login-exec.php''"
  define s2 where "s2 = snd (session_post u d s1)"
  have c2: "cached s2"
    using c1 p by (auto simp: s2_def session_post_def cached_def d_def)
  have "(\<exists>x. login_try opts s = (Inr x, s2)) \<or> (\<exists>e. login_try opts s = (Inl (Uncaught e), s2))"
    using g
    by (auto simp: login_try_def s2_def u_def[symmetric] d_def[symmetric] session_post_def
        split: prod.splits outcome.splits)
  with c2 cached_asked_once[OF c2] show ?thesis by auto
qed

lemma login_loop_fine:
  assumes "\<not> truthy (safe_mode opts)"
  shows "cached s \<Longrightarrow> fine (login_loop opts n s)"
proof (induction n arbitrary: s)
  case 0
  then show ?case by simp
next
  case (Suc n)
  obtain r s2 where lt: "login_try opts s = (r, s2)" by (cases "login_try opts s")
  with login_try_fine[OF assms Suc.prems]
  have f: "fine (r, s2)" and c: "r = Inl (Uncaught ConnectionError) \<longrightarrow> cached s2" by simp_all
  show ?case
  proof (cases "r = Inl (Uncaught ConnectionError)")
    case True
    with c have c2: "cached s2" by simp
    define s3 where "s3 = snd (sleep 30
        (emit (Log Warning ''No connection possible... %d retries left'' [int (Suc n)]) s2))"
    have c3: "cached s3" using c2 by (simp add: s3_def cached_sleep cached_quiet)
    have "(\<exists>e. login_loop opts (Suc n) s = (Inl (Uncaught e), s3)) \<or>
          login_loop opts (Suc n) s = login_loop opts n s3"
      using lt True by (auto simp: s3_def split: prod.splits outcome.splits)
    with Suc.IH[OF c3] cached_asked_once[OF c3] show ?thesis by auto
  next
    case False
    with lt f show ?thesis by (cases r) auto
  qed
qed

lemma login_fine:
  assumes "\<not> truthy (safe_mode opts)" "cached s"
  shows "fine (login opts s)"
proof -
  define s0 where "s0 = emit (Log Info ''Logging in...'' []) s"
  have c0: "cached s0" using assms(2) by (simp add: s0_def cached_quiet)
  obtain r s1 where l: "login_loop opts 5 s0 = (r, s1)" by (cases "login_loop opts 5 s0")
  with login_loop_fine[OF assms(1) c0, of 5] have f: "fine (r, s1)" by simp
  show ?thesis
  proof (cases r)
    case (Inl st)
    with l f show ?thesis by (simp add: login_def s0_def[symmetric])
  next
    case (Inr x)
    with f have "cached s1" by simp
    with l Inr cached_asked_once[OF this] show ?thesis
      by (auto simp: login_def s0_def[symmetric] split: prod.splits option.splits)
  qed
qed

lemma poll_loop_fine:
  assumes "\<not> truthy (safe_mode opts)"
  shows "cached s \<Longrightarrow> fine_run (poll_loop opts n s)"
proof (induction n arbitrary: s)
  case 0
  then show ?case by (simp add: fine_run_def)
next
  case (Suc n)
  define s0 where "s0 = emit (Log Info ''Sending keep-alive'' []) s"
  define s1 where "s1 = snd (keepalive opts s0)"
  define s3 where "s3 = snd (sleep (timeout opts) s1)"
  have c0: "cached s0" using Suc.prems by (simp add: s0_def cached_quiet)
  have "snd (keepalive opts s0) = snd (session_get (build_url opts ''online.php'') s0)"
    by (auto simp: keepalive_def split: prod.splits outcome.splits)
  then have c1: "cached s1" using c0 by (simp add: s1_def cached_session_get)
  have c3: "cached s3" using c1 by (simp add: s3_def cached_sleep)
  obtain lr s2 where l: "login opts s1 = (lr, s2)" by (cases "login opts s1")
  with login_fine[OF assms c1] have f2: "fine (lr, s2)" by simp
  obtain kr where k: "keepalive opts s0 = (kr, s1)" by (cases "keepalive opts s0") (simp add: s1_def)
  show ?case
  proof (cases kr)
    case (Inl st)
    with k cached_asked_once[OF c1] show ?thesis by (simp add: s0_def[symmetric] fine_run_def)
  next
    case alive: (Inr alive)
    show ?thesis
    proof (cases alive)
      case True
      have "poll_loop opts (Suc n) s = poll_loop opts n s3 \<or>
            (\<exists>e. poll_loop opts (Suc n) s = (Some (Uncaught e), s3))"
        using k alive True
        by (auto simp: s0_def[symmetric] s3_def split: prod.splits outcome.splits)
      then show ?thesis
      proof (elim disjE exE)
        assume "poll_loop opts (Suc n) s = poll_loop opts n s3"
        then show ?thesis using Suc.IH[OF c3] by (simp only:)
      next
        fix e assume "poll_loop opts (Suc n) s = (Some (Uncaught e), s3)"
        then show ?thesis using cached_asked_once[OF c3] by (simp only: fine_run_def fst_conv snd_conv option.case)
      qed
    next
      case False
      show ?thesis
      proof (cases lr)
        case (Inl st)
        with k alive False l f2 show ?thesis by (simp add: s0_def[symmetric] fine_run_def)
      next
        case (Inr ok)
        with f2 have c2: "cached s2" by simp
        from cached_asked_once[OF c2] have "asked_once (trace s2 @ [Log Error ''Couldn't log back in'' []])"
          by (rule asked_once_quiet) simp
        with k alive False l Inr Suc.IH[OF c2] show ?thesis
          by (simp add: s0_def[symmetric] fine_run_def)
      qed
    qed
  qed
qed

lemma init_session_fine: "cached s \<Longrightarrow> fine (init_session opts s)"
proof -
  assume c: "cached s"
  define s0 where "s0 = emit (Log Info ''Initializing session...'' []) s"
  define s1 where "s1 = snd (session_get (build_url opts ''index.php'') s0)"
  have c1: "cached s1" using c by (simp add: s1_def s0_def cached_session_get cached_quiet)
  have "init_session opts s = (Inr (), s1) \<or> (\<exists>st. init_session opts s = (Inl st, s1)) \<or>
        (\<exists>st m. init_session opts s = (Inl st, emit (Log Fatal m []) s1))"
    by (auto simp: init_session_def s0_def[symmetric] s1_def split: prod.splits outcome.splits)
  moreover have "asked_once (trace (emit (Log Fatal m []) s1))" for m
    using cached_asked_once[OF c1] by (simp add: asked_once_quiet)
  ultimately show ?thesis using c1 cached_asked_once[OF c1] by auto
qed

lemma execute_fine:
  assumes "\<not> truthy (safe_mode opts)" "cached s"
  shows "fine_run (execute opts n s)"
proof -
  obtain ir s1 where i: "init_session opts s = (ir, s1)" by (cases "init_session opts s")
  with init_session_fine[OF assms(2), of opts] have f1: "fine (ir, s1)" by simp
  show ?thesis
  proof (cases ir)
    case (Inl st)
    with i f1 show ?thesis by (simp add: execute_def fine_run_def)
  next
    case (Inr u)
    with f1 have c1: "cached s1" by simp
    obtain lr s2 where l: "login opts s1 = (lr, s2)" by (cases "login opts s1")
    with login_fine[OF assms(1) c1] have f2: "fine (lr, s2)" by simp
    show ?thesis
    proof (cases lr)
      case (Inl st)
      with i Inr l f2 show ?thesis by (simp add: execute_def fine_run_def)
    next
      case ok: (Inr ok)
      with f2 have c2: "cached s2" by simp
      then have c3: "cached (emit (Log Info ''Successfully logged in'' []) s2)"
        by (simp add: cached_quiet)
      from cached_asked_once[OF c2]
      have "asked_once (trace s2 @ [Log Error ''Invalid username/password!'' []])"
        by (rule asked_once_quiet) simp
      with i Inr l ok poll_loop_fine[OF assms(1) c3, of n] show ?thesis
        by (simp add: execute_def fine_run_def)
    qed
  qed
qed

lemma asked_once_quiet_list:
  assumes "asked_once tr" "\<forall>e\<in>set evs. quiet e"
  shows "asked_once (tr @ evs)"
proof -
  have "filter is_prompt evs = []" "\<forall>e\<in>set evs. \<not> is_post e"
    using assms(2) by (auto simp: filter_empty_conv quiet_def)
  with assms(1) show ?thesis by (auto simp: asked_once_def)
qed

lemma shutdown_asked_once:
  assumes "asked_once (trace s)"
  shows "asked_once (trace (snd (shutdown opts s)))"
proof -
  have "\<exists>evs. trace (snd (shutdown opts s)) = trace s @ evs \<and> (\<forall>e\<in>set evs. quiet e)"
    by (auto simp: shutdown_def logout_def session_get_def split: outcome.splits)
  with assms show ?thesis by (auto intro: asked_once_quiet_list)
qed

lemma main_asked_once:
  assumes "\<not> truthy (safe_mode opts)" "trace s = []" "no_connection_error (tty s)"
  shows "asked_once (trace (snd (main opts n s)))"
proof -
  have c: "cached (Login_init opts s)"
    using assms(2,3) by (simp add: cached_def Login_init_def)
  obtain er s1 where e: "execute opts n (Login_init opts s) = (er, s1)"
    by (cases "execute opts n (Login_init opts s)")
  with execute_fine[OF assms(1) c, of n] have f: "fine_run (er, s1)" by simp
  then have a1: "asked_once (trace s1)" by (auto simp: fine_run_def cached_asked_once split: option.splits)
  define s2 where "s2 = emit (Log Info ''Received keyboard interrupt. Stopping running actions...'' []) s1"
  have "asked_once (trace s2)" using a1 by (simp add: s2_def asked_once_quiet)
  then have a3: "asked_once (trace (snd (shutdown opts s2)))" by (rule shutdown_asked_once)
  have "snd (main opts n s) = s1 \<or> snd (main opts n s) = snd (shutdown opts s2)"
    using e by (auto simp: main_def s2_def split: prod.splits option.splits stop.splits sum.splits)
  with a1 a3 show ?thesis by auto
qed

text \<open>
  C6, as the code has it, for a fresh process and any run of it. In safe mode every
  password typed is sent by the request that follows at once and every login request
  sends the password typed just before it, so there is one prompt for each attempt of
  the retry loop; \<^verbatim>\<open>self.password\<close> stays empty. Without safe mode the whole
  trace holds at most one prompt, every login request sends what was typed there, and a
  retrieval that finds a cached password returns it and does nothing else (the prompt
  itself raises no connection error).
\<close>

theorem credential_prompts:
  assumes "trace s = []"
  shows "(truthy (safe_mode opts) \<longrightarrow>
            paired (trace (snd (main opts fuel s))) \<and> password (snd (main opts fuel s)) = None) \<and>
         (\<not> truthy (safe_mode opts) \<and> no_connection_error (tty s) \<longrightarrow>
            asked_once (trace (snd (main opts fuel s)))) \<and>
         (\<not> truthy (safe_mode opts) \<and> password t = Some p \<longrightarrow> get_passwd opts t = (Inr p, t))"
proof (intro conjI impI)
  assume sm: "truthy (safe_mode opts)"
  from keeps_main[OF this, of s fuel] obtain evs where
    "trace (snd (main opts fuel s)) = trace (Login_init opts s) @ evs" "paired evs"
    "password (snd (main opts fuel s)) = password (Login_init opts s)"
    unfolding keeps_def by blast
  then show "paired (trace (snd (main opts fuel s)))" "password (snd (main opts fuel s)) = None"
    using assms by (simp_all add: Login_init_def)
next
  assume "\<not> truthy (safe_mode opts) \<and> no_connection_error (tty s)"
  then show "asked_once (trace (snd (main opts fuel s)))"
    using assms by (intro main_asked_once) simp_all
next
  assume "\<not> truthy (safe_mode opts) \<and> password t = Some p"
  then show "get_passwd opts t = (Inr p, t)" by (simp add: get_passwd_def)
qed

theorem credential_prompts_witness:
  "paired (trace (snd (main safe_options 1 one_error))) \<and>
   password (snd (main safe_options 1 one_error)) = None \<and>
   filter is_prompt (trace (snd (main safe_options 1 one_error))) =
     [Prompt ''Password: '' (Returns ''first''), Prompt ''Password: '' (Returns ''second''),
      Prompt ''Password: '' (Returns ''third'')] \<and>
   asked_once (trace (snd (main default_options 1 one_error))) \<and>
   filter is_prompt (trace (snd (main default_options 1 one_error))) =
     [Prompt ''Password: '' (Returns ''first'')] \<and>
   map sent (filter is_post (trace (snd (main default_options 1 one_error)))) =
     [Some ''first'', Some ''first'', Some ''first'']"
  using credential_prompts [of one_error safe_options 1 one_error "''first''"]
    credential_prompts [of one_error default_options 1 "snd (main default_options 1 one_error)" "''first''"]
  by (simp add: run_defs safe_options_def one_error_def no_connection_error_def
      eval_nat_numeral)

text \<open>
  Counted by login calls, C6 fails in safe mode: when the first request of the first
  login is refused, the one call that was started has prompted twice.
\<close>

theorem credential_prompts_counterexample:
  "filter is_login_start (trace (snd (main safe_options 0 one_error))) =
     [Log Info ''Logging in...'' []] \<and>
   filter is_prompt (trace (snd (main safe_options 0 one_error))) =
     [Prompt ''Password: '' (Returns ''first''), Prompt ''Password: '' (Returns ''second'')]"
  by (simp add: run_defs safe_options_def one_error_def is_login_start_def eval_nat_numeral)

subsection \<open>The password option\<close>

lemma password_option_simps [simp]:
  "build_url (opts\<lparr>opt_password := p\<rparr>) target = build_url opts target"
  "get_passwd (opts\<lparr>opt_password := p\<rparr>) s = get_passwd opts s"
  "Login_init (opts\<lparr>opt_password := p\<rparr>) s = Login_init opts s"
  by (simp_all add: build_url_def get_passwd_def Login_init_def)

lemma login_try_password_option [simp]:
  "login_try (opts\<lparr>opt_password := p\<rparr>) s = login_try opts s"
  by (auto simp: login_try_def split: prod.splits sum.splits)

lemma login_loop_password_option [simp]:
  "login_loop (opts\<lparr>opt_password := p\<rparr>) n s = login_loop opts n s"
  by (induction n arbitrary: s) (auto split: prod.splits sum.splits outcome.splits)

lemma calls_password_option [simp]:
  "login (opts\<lparr>opt_password := p\<rparr>) s = login opts s"
  "keepalive (opts\<lparr>opt_password := p\<rparr>) s = keepalive opts s"
  "init_session (opts\<lparr>opt_password := p\<rparr>) s = init_session opts s"
  "shutdown (opts\<lparr>opt_password := p\<rparr>) s = shutdown opts s"
  by (simp_all add: login_def keepalive_def init_session_def shutdown_def logout_def)

lemma poll_loop_password_option [simp]:
  "poll_loop (opts\<lparr>opt_password := p\<rparr>) n s = poll_loop opts n s"
  by (induction n arbitrary: s) (auto split: prod.splits sum.splits outcome.splits)

lemma execute_password_option [simp]:
  "execute (opts\<lparr>opt_password := p\<rparr>) n s = execute opts n s"
  by (auto simp: execute_def split: prod.splits sum.splits)

text \<open>
  C10. Whatever \<^verbatim>\<open>-p\<close> was given, \<^verbatim>\<open>Login.init\<close> leaves the cache empty,
  the first retrieval shows the prompt (and returns what is typed, or passes on what the
  prompt raises), and the whole run is the same as without the option.
\<close>

theorem password_option_ignored:
  "password (Login_init (opts\<lparr>opt_password := p\<rparr>) s) = None \<and>
   get_passwd (opts\<lparr>opt_password := p\<rparr>) (Login_init (opts\<lparr>opt_password := p\<rparr>) s) =
     (case shd (tty s) of
        Returns pw \<Rightarrow>
          (Inr pw,
           s\<lparr>password := if truthy (safe_mode opts) then None else Some pw,
             tty := stl (tty s),
             trace := trace s @ [Prompt ''Password: '' (Returns pw)]\<rparr>)
      | Raises e \<Rightarrow>
          (Inl (Uncaught e),
           s\<lparr>password := None, tty := stl (tty s),
             trace := trace s @ [Prompt ''Password: '' (Raises e)]\<rparr>)) \<and>
   main (opts\<lparr>opt_password := p\<rparr>) fuel s = main opts fuel s"
proof (intro conjI)
  show "password (Login_init (opts\<lparr>opt_password := p\<rparr>) s) = None"
    by (simp add: Login_init_def)
  show "get_passwd (opts\<lparr>opt_password := p\<rparr>) (Login_init (opts\<lparr>opt_password := p\<rparr>) s) =
     (case shd (tty s) of
        Returns pw \<Rightarrow>
          (Inr pw,
           s\<lparr>password := if truthy (safe_mode opts) then None else Some pw,
             tty := stl (tty s),
             trace := trace s @ [Prompt ''Password: '' (Returns pw)]\<rparr>)
      | Raises e \<Rightarrow>
          (Inl (Uncaught e),
           s\<lparr>password := None, tty := stl (tty s),
             trace := trace s @ [Prompt ''Password: '' (Raises e)]\<rparr>))"
    by (simp add: Login_init_def get_passwd_def getpass_def emit_def split: outcome.splits)
  show "main (opts\<lparr>opt_password := p\<rparr>) fuel s = main opts fuel s"
    by (auto simp: main_def split: prod.splits sum.splits option.splits stop.splits)
qed



theorem password_option_ignored_witness:
  "main (default_options\<lparr>opt_password := Some ''hunter2''\<rparr>) 1 one_error =
     main default_options 1 one_error \<and>
   filter is_prompt (trace (snd (main (default_options\<lparr>opt_password := Some ''hunter2''\<rparr>) 1
       one_error))) = [Prompt ''Password: '' (Returns ''first'')]"
  using password_option_ignored
    [where opts = default_options and p = "Some ''hunter2''" and s = one_error and fuel = 1]
  by (simp add: run_defs one_error_def eval_nat_numeral)

subsection \<open>Shutdown\<close>

text \<open>
  C7 does not hold of the code. \<^verbatim>\<open>_logout\<close> is the one request of the class that
  is not guarded against connection errors: when the logout request raises one, the
  exception leaves \<^verbatim>\<open>shutdown\<close> and \<^verbatim>\<open>main\<close>, no \<open>Logout failed\<close> line is
  logged, and the process ends on the uncaught exception.
\<close>

theorem shutdown_escalates:
  "main default_options 1 unplugged =
     (Some (Crashed ConnectionError),
      unplugged
        \<lparr>password := Some ''secret'',
         http := sconst (Raises ConnectionError),
         tty := sconst (Returns ''secret''),
         naps := sconst (Raises KeyboardInterrupt),
         trace :=
           [Log Info ''Initializing session...'' [],
            Get ''https://zerberus.ba-horb.de/index.php''
              (Returns (page ''https://zerberus.ba-horb.de/index.php'' 200)),
            Log Info ''Logging in...'' [],
            Prompt ''Password: '' (Returns ''secret''),
            Post ''https://zerberus.ba-horb.de/login-exec.php''
              [(''username'', ''student''), (''password'', ''secret''), (''submit'', ''Log on'')]
              (Returns (page ''https://zerberus.ba-horb.de/welcome.php'' 200)),
            Log Info ''Successfully logged in'' [],
            Log Info ''Sending keep-alive'' [],
            Get ''https://zerberus.ba-horb.de/online.php''
              (Returns (page ''https://zerberus.ba-horb.de/online.php'' 200)),
            Sleep 60,
            Log Info ''Received keyboard interrupt. Stopping running actions...'' [],
            Log Info ''Logging out...'' [],
            Get ''https://zerberus.ba-horb.de/logout.php'' (Raises ConnectionError)]\<rparr>)"
  by (simp add: run_defs unplugged_def eval_nat_numeral)

subsection \<open>Back to polling\<close>








subsection \<open>The remote desktop launcher\<close>



end
